theory Spec2Isabelle
  imports Main
begin

section \<open>The process handle of package gosh (cmd.go)\<close>

text \<open>
  A shallow embedding of \<^verbatim>\<open>gosh/cmd.go\<close>. The Go struct \<^verbatim>\<open>Cmd\<close> is a record, every
  method takes the handle and returns the updated handle, error returns are values of
  the datatype \<open>error\<close>, and what the operating system or a library decides (opening a
  file, launching the process, delivering a signal, parsing JSON) is a parameter of
  the function that asks for it. Calls of \<^verbatim>\<open>Close\<close> and deliveries of signals are
  returned as traces, so that "closed exactly once" and "no delivery attempted" can be
  stated.
\<close>

subsection \<open>Errors\<close>

text \<open>
  The package-level error variables of cmd.go, the error built in \<^verbatim>\<open>start\<close> for the
  stdin conflict, the error of an unknown message type, and errors that come from
  outside: \<open>errAlreadyCalledCleanup\<close> (declared with the Shell), a run-time panic, an
  \<^verbatim>\<open>*exec.ExitError\<close>, and any operating-system or library error with its text.
\<close>

datatype error =
    errAlreadyCalledStart
  | errAlreadyCalledWait
  | errCloseStdout
  | errCloseStderr
  | errDidNotCallStart
  | errProcessExited
  | errAlreadyCalledCleanup
  | errStdinConflict
  | errUnknownMessageType string
  | exitError int
  | osError string
  | runtimePanic

text \<open>The text os.Process.Signal reports when the process is already gone.\<close>

definition errFinished :: string where
  "errFinished = ''os: process already finished''"

subsection \<open>Sinks, writers and the handle\<close>

text \<open>
  A sink is identified the way Go compares interface values holding pointers: by the
  object. The decoder, the parent's two streams, a file (by name), a buffered pipe, a
  caller's WriteCloser and a capture buffer (by an object number).
\<close>

datatype sink =
    RecvWriter
  | OsStdout
  | OsStderr
  | File string
  | BufferedPipe nat
  | WriteCloser nat
  | Buffer nat

datatype mutex = sharedMu

datatype writer = MultiWriter "sink list" | lockedWriter mutex writer

datatype stdin_source = StringReader string | PipeReader nat

text \<open>The fields of \<^verbatim>\<open>exec.Cmd\<close> that cmd.go reads or writes.\<close>

record exec_Cmd =
  ePath :: string
  eEnv :: "string list"
  eArgs :: "string list"
  eStdin :: "stdin_source option"
  eStdout :: "writer option"
  eStderr :: "writer option"
  eProcess :: "nat option"

definition exec_zero :: exec_Cmd where
  "exec_zero = \<lparr>ePath = [], eEnv = [], eArgs = [], eStdin = None, eStdout = None,
     eStderr = None, eProcess = None\<rparr>"

text \<open>
  The struct \<^verbatim>\<open>Cmd\<close>. The pointer \<^verbatim>\<open>sh\<close> is passed to the functions that use the
  Shell; the condition variable is the discipline of the atomic actions below; the
  channel \<^verbatim>\<open>waitChan\<close> of capacity one is the list of values it holds.
\<close>

record Cmd =
  Err :: "error option"
  Path :: string
  Vars :: "string \<rightharpoonup> string"
  Args :: "string list"
  IgnoreParentExit :: bool
  ExitAfter :: int
  PropagateOutput :: bool
  OutputDir :: string
  ExitErrorIsOk :: bool
  Stdin :: string
  ec :: exec_Cmd
  stdinWriteCloser :: "nat option"
  calledStart :: bool
  calledWait :: bool
  waitChan :: "error option list"
  started :: bool
  exited :: bool
  stdoutWriters :: "sink list"
  stderrWriters :: "sink list"
  closers :: "sink list"
  recvReady :: bool
  recvVars :: "string \<rightharpoonup> string"

text \<open>
  Modelled from the spec: the type Shell is not in cmd.go. The spec's supervisor rejects
  a registration once shutdown has begun and appends the handle to its live registry;
  the model keeps the flag and the length of the registry.
\<close>

record Shell =
  calledCleanup :: bool
  cmds :: nat

text \<open>
  Modelled from the spec: the helpers copyMap and mergeMaps are not in cmd.go. A copy
  has the entries of the original; a merge overwrites existing keys, adds new ones and
  deletes none.
\<close>

definition copyMap :: "(string \<rightharpoonup> string) \<Rightarrow> (string \<rightharpoonup> string)" where
  "copyMap m = m"

definition mergeMaps :: "(string \<rightharpoonup> string) \<Rightarrow> (string \<rightharpoonup> string) \<Rightarrow> (string \<rightharpoonup> string)" where
  "mergeMaps a b = a ++ b"

text \<open>
  What the operating system and the constants declared outside cmd.go contribute to
  \<^verbatim>\<open>start\<close>: the names of the two environment entries, the printing of a duration,
  the encoding of a map as an environment slice, the name of the output files (directory
  and path to the joined name with the time stamp), whether a file opens, and whether
  the process launches (with its process identifier).
\<close>

record world =
  envWatchParent :: string
  envExitAfter :: string
  durationString :: "int \<Rightarrow> string"
  mapToSlice :: "(string \<rightharpoonup> string) \<Rightarrow> string list"
  outputName :: "string \<Rightarrow> string \<Rightarrow> string"
  openFile :: "string \<Rightarrow> error option"
  procStart :: "error + nat"

subsection \<open>Creating and cloning a handle\<close>

definition newCmdInternal ::
  "Shell \<Rightarrow> (string \<rightharpoonup> string) \<Rightarrow> string \<Rightarrow> string list \<Rightarrow> error + (Cmd \<times> Shell)" where
  "newCmdInternal sh vars path args =
     (let c = \<lparr>Err = None, Path = path, Vars = vars, Args = path # args,
                IgnoreParentExit = False, ExitAfter = 0, PropagateOutput = False,
                OutputDir = [], ExitErrorIsOk = False, Stdin = [], ec = exec_zero,
                stdinWriteCloser = None, calledStart = False, calledWait = False,
                waitChan = [], started = False, exited = False, stdoutWriters = [],
                stderrWriters = [], closers = [], recvReady = False,
                recvVars = Map.empty\<rparr>
      in if calledCleanup sh then Inl errAlreadyCalledCleanup
         else Inr (c, sh\<lparr>cmds := Suc (cmds sh)\<rparr>))"

text \<open>
  \<^verbatim>\<open>args[1:]\<close> panics when \<^verbatim>\<open>c.Args\<close> is empty; otherwise the clone gets the path
  followed by the arguments after the first.
\<close>

definition clone :: "Shell \<Rightarrow> Cmd \<Rightarrow> error + (Cmd \<times> Shell)" where
  "clone sh c =
     (case Args c of
        [] \<Rightarrow> Inl runtimePanic
      | a # args \<Rightarrow>
          (case newCmdInternal sh (copyMap (Vars c)) (Path c) args of
             Inl e \<Rightarrow> Inl e
           | Inr (res, sh') \<Rightarrow>
               Inr (res\<lparr>IgnoreParentExit := IgnoreParentExit c,
                        ExitAfter := ExitAfter c,
                        PropagateOutput := PropagateOutput c,
                        OutputDir := OutputDir c,
                        ExitErrorIsOk := ExitErrorIsOk c,
                        Stdin := Stdin c\<rparr>, sh')))"

subsection \<open>Releasing the registered closers\<close>

text \<open>
  The loop of \<^verbatim>\<open>closeClosers\<close> with its map \<^verbatim>\<open>cm\<close> of closers already seen. The result
  is the sequence of \<^verbatim>\<open>Close\<close> calls made, in order.
\<close>

fun closeClosers_loop :: "(sink \<Rightarrow> bool) \<Rightarrow> sink list \<Rightarrow> sink list" where
  "closeClosers_loop cm [] = []"
| "closeClosers_loop cm (x # xs) =
     (if \<not> cm x then x # closeClosers_loop (cm(x := True)) xs
      else closeClosers_loop cm xs)"

definition closeClosers :: "Cmd \<Rightarrow> sink list" where
  "closeClosers c = closeClosers_loop (\<lambda>_. False) (closers c)"

definition isRunning :: "Cmd \<Rightarrow> bool" where
  "isRunning c = (if \<not> started c then False else \<not> exited c)"

subsection \<open>Attaching sinks before start\<close>

definition addStdoutWriter :: "sink \<Rightarrow> Cmd \<Rightarrow> error option \<times> Cmd" where
  "addStdoutWriter wc c =
     (if calledStart c then (Some errAlreadyCalledStart, c)
      else if wc = OsStdout then (Some errCloseStdout, c)
      else if wc = OsStderr then (Some errCloseStderr, c)
      else (None, c\<lparr>stdoutWriters := stdoutWriters c @ [wc],
                     closers := closers c @ [wc]\<rparr>))"

definition addStderrWriter :: "sink \<Rightarrow> Cmd \<Rightarrow> error option \<times> Cmd" where
  "addStderrWriter wc c =
     (if calledStart c then (Some errAlreadyCalledStart, c)
      else if wc = OsStdout then (Some errCloseStdout, c)
      else if wc = OsStderr then (Some errCloseStderr, c)
      else (None, c\<lparr>stderrWriters := stderrWriters c @ [wc],
                     closers := closers c @ [wc]\<rparr>))"

text \<open>
  \<^verbatim>\<open>stdinPipe\<close>. The first argument is what \<^verbatim>\<open>exec.Cmd.StdinPipe\<close> answers if it is
  asked: an error, or a new pipe, which os/exec also installs as the standard input of
  the command.
\<close>

definition stdinPipe :: "(error + nat) \<Rightarrow> Cmd \<Rightarrow> (error + nat) \<times> Cmd" where
  "stdinPipe pipeRes c =
     (if calledStart c then (Inl errAlreadyCalledStart, c)
      else (case stdinWriteCloser c of
              Some p \<Rightarrow> (Inr p, c)
            | None \<Rightarrow>
                (case pipeRes of
                   Inl e \<Rightarrow> (Inl e, c\<lparr>stdinWriteCloser := None\<rparr>)
                 | Inr p \<Rightarrow>
                     (Inr p, c\<lparr>stdinWriteCloser := Some p,
                               ec := (ec c)\<lparr>eStdin := Some (PipeReader p)\<rparr>\<rparr>))))"

subsection \<open>The shared state and its atomic actions\<close>

text \<open>
  The three critical sections under \<^verbatim>\<open>cond.L\<close> that change the shared state: the
  decoder's "ready" case, the decoder's "vars" case, and the exit waiter setting
  \<^verbatim>\<open>exited\<close>.
\<close>

datatype action = SetReady | MergeVars "string \<rightharpoonup> string" | SetExited

fun do_action :: "Cmd \<Rightarrow> action \<Rightarrow> Cmd" where
  "do_action c SetReady = c\<lparr>recvReady := True\<rparr>"
| "do_action c (MergeVars m) = c\<lparr>recvVars := mergeMaps (recvVars c) m\<rparr>"
| "do_action c SetExited = c\<lparr>exited := True\<rparr>"

text \<open>
  The goroutine of \<^verbatim>\<open>startExitWaiter\<close>, run when the process has terminated with the
  result \<open>waitErr\<close>: set \<^verbatim>\<open>exited\<close>, close the closers, send the result.
\<close>

definition exitWaiter :: "error option \<Rightarrow> Cmd \<Rightarrow> Cmd \<times> sink list" where
  "exitWaiter waitErr c =
     (let c1 = do_action c SetExited
      in (c1\<lparr>waitChan := waitChan c1 @ [waitErr]\<rparr>, closeClosers c1))"

subsection \<open>The decoder of control messages\<close>

text \<open>
  Modelled from the spec: the struct msg and the two type tags are not in cmd.go; the
  wire format of the spec has the tags "ready" and "vars" and a mapping of variables.
\<close>

record msg =
  Type :: string
  MVars :: "string \<rightharpoonup> string"

definition typeReady :: string where
  "typeReady = ''ready''"

definition typeVars :: string where
  "typeVars = ''vars''"

record recvWriter =
  buf :: string
  readPrefix :: bool
  skipLine :: bool

definition recvWriter_zero :: recvWriter where
  "recvWriter_zero = \<lparr>buf = [], readPrefix = False, skipLine = False\<rparr>"

definition nl :: char where
  "nl = CHR 0x0A"

definition reset_line :: "recvWriter \<Rightarrow> recvWriter" where
  "reset_line w = w\<lparr>readPrefix := False, skipLine := False, buf := []\<rparr>"

text \<open>
  One iteration of the loop of \<^verbatim>\<open>Write\<close> on the byte \<open>b\<close>. The marker \<open>msgPrefix\<close> is
  declared outside cmd.go and \<open>unmarshal\<close> is \<^verbatim>\<open>json.Unmarshal\<close> into a msg; both are
  parameters. \<open>Inl\<close> is the early return with an error, with the state as it is left.
\<close>

definition recv_byte ::
  "string \<Rightarrow> (string \<Rightarrow> error + msg) \<Rightarrow> char \<Rightarrow> recvWriter \<times> Cmd
     \<Rightarrow> error + (recvWriter \<times> Cmd)" where
  "recv_byte msgPrefix unmarshal b s =
     (case s of (w, c) \<Rightarrow>
        if b = nl then
          (if readPrefix w \<and> \<not> skipLine w then
             (case unmarshal (buf w) of
                Inl e \<Rightarrow> Inl e
              | Inr m \<Rightarrow>
                  if Type m = typeReady then Inr (reset_line w, do_action c SetReady)
                  else if Type m = typeVars then
                    Inr (reset_line w, do_action c (MergeVars (MVars m)))
                  else Inl (errUnknownMessageType (Type m)))
           else Inr (reset_line w, c))
        else if \<not> skipLine w then
          (let w1 = w\<lparr>buf := buf w @ [b]\<rparr>
           in if \<not> readPrefix w1 \<and> length (buf w1) = length msgPrefix then
                (let prefix = take (length msgPrefix) (buf w1);
                     w2 = w1\<lparr>readPrefix := True, buf := drop (length msgPrefix) (buf w1)\<rparr>
                 in if prefix \<noteq> msgPrefix then Inr (w2\<lparr>skipLine := True\<rparr>, c)
                    else Inr (w2, c))
              else Inr (w1, c))
        else Inr (w, c))"

fun recv_bytes ::
  "string \<Rightarrow> (string \<Rightarrow> error + msg) \<Rightarrow> string \<Rightarrow> recvWriter \<times> Cmd
     \<Rightarrow> error option \<times> recvWriter \<times> Cmd" where
  "recv_bytes msgPrefix unmarshal [] s = (None, s)"
| "recv_bytes msgPrefix unmarshal (b # p) s =
     (case recv_byte msgPrefix unmarshal b s of
        Inl e \<Rightarrow> (Some e, s)
      | Inr s' \<Rightarrow> recv_bytes msgPrefix unmarshal p s')"

text \<open>\<^verbatim>\<open>recvWriter.Write\<close>: the count and error it returns, and the state it leaves.\<close>

definition recvWriter_Write ::
  "string \<Rightarrow> (string \<Rightarrow> error + msg) \<Rightarrow> string \<Rightarrow> recvWriter \<times> Cmd
     \<Rightarrow> (nat \<times> error option) \<times> recvWriter \<times> Cmd" where
  "recvWriter_Write msgPrefix unmarshal p s =
     (case recv_bytes msgPrefix unmarshal p s of
        (Some e, s') \<Rightarrow> ((0, Some e), s')
      | (None, s') \<Rightarrow> ((length p, None), s'))"

text \<open>
  Successive calls of \<^verbatim>\<open>Write\<close>, one for each chunk of the child's stdout, on the
  same decoder: the decoder and the handle are carried from one call to the next, and
  the copy of the stream stops at the first call that returns an error.
\<close>

fun recvWriter_Writes ::
  "string \<Rightarrow> (string \<Rightarrow> error + msg) \<Rightarrow> string list \<Rightarrow> recvWriter \<times> Cmd
     \<Rightarrow> error option \<times> recvWriter \<times> Cmd" where
  "recvWriter_Writes msgPrefix unmarshal [] s = (None, s)"
| "recvWriter_Writes msgPrefix unmarshal (p # ps) s =
     (case recvWriter_Write msgPrefix unmarshal p s of
        ((n, Some e), s') \<Rightarrow> (Some e, s')
      | ((n, None), s') \<Rightarrow> recvWriter_Writes msgPrefix unmarshal ps s')"

subsection \<open>Assembling the writers and starting the process\<close>

text \<open>The final switch of \<^verbatim>\<open>makeStdoutStderr\<close> on the two lists of writers.\<close>

definition wrapWriters :: "Cmd \<Rightarrow> writer option \<times> writer option" where
  "wrapWriters c =
     (let hasOut = (0 < length (stdoutWriters c)); hasErr = (0 < length (stderrWriters c))
      in if hasOut \<and> hasErr then
           (Some (lockedWriter sharedMu (MultiWriter (stdoutWriters c))),
            Some (lockedWriter sharedMu (MultiWriter (stderrWriters c))))
         else if hasOut then (Some (MultiWriter (stdoutWriters c)), None)
         else if hasErr then (None, Some (MultiWriter (stderrWriters c)))
         else (None, None))"

definition makeStdoutStderr ::
  "world \<Rightarrow> Cmd \<Rightarrow> (error + (writer option \<times> writer option)) \<times> Cmd" where
  "makeStdoutStderr os c =
     (let c1 = c\<lparr>stdoutWriters := stdoutWriters c @ [RecvWriter]\<rparr>;
          c2 = (if PropagateOutput c1
                then c1\<lparr>stdoutWriters := stdoutWriters c1 @ [OsStdout],
                        stderrWriters := stderrWriters c1 @ [OsStderr]\<rparr>
                else c1)
      in if OutputDir c2 \<noteq> [] then
           (let name = outputName os (OutputDir c2) (Path c2)
            in case openFile os (name @ ''.stdout'') of
                 Some e \<Rightarrow> (Inl e, c2)
               | None \<Rightarrow>
                   (let c3 = c2\<lparr>stdoutWriters := stdoutWriters c2 @ [File (name @ ''.stdout'')],
                                closers := closers c2 @ [File (name @ ''.stdout'')]\<rparr>
                    in case openFile os (name @ ''.stderr'') of
                         Some e \<Rightarrow> (Inl e, c3)
                       | None \<Rightarrow>
                           (let c4 = c3\<lparr>stderrWriters :=
                                          stderrWriters c3 @ [File (name @ ''.stderr'')],
                                        closers := closers c3 @ [File (name @ ''.stderr'')]\<rparr>
                            in (Inr (wrapWriters c4), c4))))
         else (Inr (wrapWriters c2), c2))"

text \<open>
  The environment \<^verbatim>\<open>start\<close> hands to the process: a copy of the variables with the
  two convention entries set or deleted.
\<close>

definition start_env :: "world \<Rightarrow> Cmd \<Rightarrow> string list" where
  "start_env os c =
     (let vars0 = copyMap (Vars c);
          vars1 = (if IgnoreParentExit c then vars0(envWatchParent os := None)
                   else vars0(envWatchParent os \<mapsto> ''1''));
          vars2 = (if ExitAfter c = 0 then vars1(envExitAfter os := None)
                   else vars1(envExitAfter os \<mapsto> durationString os (ExitAfter c)))
      in mapToSlice os vars2)"

text \<open>
  The end of \<^verbatim>\<open>start\<close>, from the call of \<^verbatim>\<open>makeStdoutStderr\<close> on: assemble the
  writers, launch the process, mark the handle started.
\<close>

definition start_launch :: "world \<Rightarrow> Cmd \<Rightarrow> error option \<times> Cmd" where
  "start_launch os c =
     (case makeStdoutStderr os c of
        (Inl e, c') \<Rightarrow> (Some e, c'\<lparr>ec := (ec c')\<lparr>eStdout := None, eStderr := None\<rparr>\<rparr>)
      | (Inr (out, err), c') \<Rightarrow>
          (case procStart os of
             Inl e \<Rightarrow> (Some e, c'\<lparr>ec := (ec c')\<lparr>eStdout := out, eStderr := err\<rparr>\<rparr>)
           | Inr pid \<Rightarrow>
               (None, c'\<lparr>ec := (ec c')\<lparr>eStdout := out, eStderr := err,
                                      eProcess := Some pid\<rparr>,
                         started := True\<rparr>)))"

text \<open>
  The body of \<^verbatim>\<open>start\<close>, without the deferred function: the error returned and the
  handle as it is left.
\<close>

definition start_body :: "world \<Rightarrow> Shell \<Rightarrow> Cmd \<Rightarrow> error option \<times> Cmd" where
  "start_body os sh c =
     (if calledStart c then (Some errAlreadyCalledStart, c)
      else
        (let c1 = c\<lparr>calledStart := True\<rparr>
         in if calledCleanup sh then (Some errAlreadyCalledCleanup, c1)
            else
              (let c2 = c1\<lparr>ec := (ec c1)\<lparr>ePath := Path c1, eEnv := start_env os c1,
                                          eArgs := Args c1\<rparr>\<rparr>
               in if Stdin c2 \<noteq> [] then
                    (if stdinWriteCloser c2 \<noteq> None then (Some errStdinConflict, c2)
                     else start_launch os
                            (c2\<lparr>ec := (ec c2)\<lparr>eStdin := Some (StringReader (Stdin c2))\<rparr>\<rparr>))
                  else start_launch os c2)))"

text \<open>
  \<^verbatim>\<open>start\<close>: the body, then the deferred function, which closes the closers when the
  handle is not started. The third component is the sequence of \<^verbatim>\<open>Close\<close> calls.
\<close>

definition start :: "world \<Rightarrow> Shell \<Rightarrow> Cmd \<Rightarrow> error option \<times> Cmd \<times> sink list" where
  "start os sh c =
     (case start_body os sh c of
        (err, c') \<Rightarrow> (err, c', if \<not> started c' then closeClosers c' else []))"

subsection \<open>Waiting for the child\<close>

text \<open>
  A call of \<^verbatim>\<open>cond.Wait\<close> returns after the other activities have performed some
  atomic actions on the shared state (possibly none). The waits of a blocked caller
  are given as the list of these batches, in order; when the list is used up and the
  loop would wait again, the caller stays blocked and the result is \<open>None\<close>.
\<close>

fun awaitReady_loop :: "Cmd \<Rightarrow> action list list \<Rightarrow> Cmd option" where
  "awaitReady_loop c [] = (if \<not> exited c \<and> \<not> recvReady c then None else Some c)"
| "awaitReady_loop c (acts # wakes) =
     (if \<not> exited c \<and> \<not> recvReady c then awaitReady_loop (foldl do_action c acts) wakes
      else Some c)"

definition awaitReady :: "Cmd \<Rightarrow> action list list \<Rightarrow> (error option \<times> Cmd) option" where
  "awaitReady c wakes =
     (if \<not> started c then Some (Some errDidNotCallStart, c)
      else if calledWait c then Some (Some errAlreadyCalledWait, c)
      else (case awaitReady_loop c wakes of
              None \<Rightarrow> None
            | Some c' \<Rightarrow>
                if \<not> recvReady c' then Some (Some errProcessExited, c')
                else Some (None, c')))"

text \<open>The map \<^verbatim>\<open>wantKeys\<close> built from the keys, and the closure \<^verbatim>\<open>updateRes\<close>.\<close>

definition wantKeys_of :: "string list \<Rightarrow> (string \<rightharpoonup> bool)" where
  "wantKeys_of keys = foldl (\<lambda>m key. m(key \<mapsto> True)) Map.empty keys"

definition updateRes ::
  "(string \<rightharpoonup> bool) \<Rightarrow> Cmd \<Rightarrow> (string \<rightharpoonup> string) \<Rightarrow> (string \<rightharpoonup> string)" where
  "updateRes wantKeys c res = res ++ (recvVars c |` dom wantKeys)"

definition len :: "('k \<rightharpoonup> 'v) \<Rightarrow> nat" where
  "len m = card (dom m)"

fun awaitVars_loop ::
  "(string \<rightharpoonup> bool) \<Rightarrow> Cmd \<Rightarrow> (string \<rightharpoonup> string) \<Rightarrow> action list list
     \<Rightarrow> (Cmd \<times> (string \<rightharpoonup> string)) option" where
  "awaitVars_loop wantKeys c res [] =
     (if \<not> exited c \<and> len res < len wantKeys then None else Some (c, res))"
| "awaitVars_loop wantKeys c res (acts # wakes) =
     (if \<not> exited c \<and> len res < len wantKeys then
        (let c' = foldl do_action c acts
         in awaitVars_loop wantKeys c' (updateRes wantKeys c' res) wakes)
      else Some (c, res))"

definition awaitVars ::
  "Cmd \<Rightarrow> string list \<Rightarrow> action list list \<Rightarrow> ((error + (string \<rightharpoonup> string)) \<times> Cmd) option" where
  "awaitVars c keys wakes =
     (if \<not> started c then Some (Inl errDidNotCallStart, c)
      else if calledWait c then Some (Inl errAlreadyCalledWait, c)
      else
        (let wantKeys = wantKeys_of keys;
             res = updateRes wantKeys c Map.empty
         in case awaitVars_loop wantKeys c res wakes of
              None \<Rightarrow> None
            | Some (c', res') \<Rightarrow>
                if len res' < len wantKeys then Some (Inl errProcessExited, c')
                else Some (Inr res', c')))"

subsection \<open>Signalling\<close>

text \<open>
  \<^verbatim>\<open>signal\<close>. The first argument is what \<^verbatim>\<open>Process.Signal\<close> answers for a signal: no
  error, or an error with its text. The second component of the result is the list of
  signals handed to the operating system.
\<close>

definition signal :: "(nat \<Rightarrow> string option) \<Rightarrow> Cmd \<Rightarrow> nat \<Rightarrow> error option \<times> nat list" where
  "signal procSignal c sig =
     (if \<not> started c then (Some errDidNotCallStart, [])
      else if calledWait c then (Some errAlreadyCalledWait, [])
      else if \<not> isRunning c then (None, [])
      else (case procSignal sig of
              Some m \<Rightarrow> if m \<noteq> errFinished then (Some (osError m), [sig]) else (None, [sig])
            | None \<Rightarrow> (None, [sig])))"

subsection \<open>Concrete handles and environments\<close>

text \<open>
  A shell that has not begun cleanup, the handle \<^verbatim>\<open>newCmdInternal\<close> creates for
  \<^verbatim>\<open>/bin/child -v\<close>, an environment in which files open and the process launches, and
  one in which the launch fails.
\<close>

definition sh0 :: Shell where
  "sh0 = \<lparr>calledCleanup = False, cmds = 0\<rparr>"

definition cmd0 :: Cmd where
  "cmd0 = \<lparr>Err = None, Path = ''/bin/child'', Vars = Map.empty,
            Args = [''/bin/child'', ''-v''],
            IgnoreParentExit = False, ExitAfter = 0, PropagateOutput = False,
            OutputDir = [], ExitErrorIsOk = False, Stdin = [], ec = exec_zero,
            stdinWriteCloser = None, calledStart = False, calledWait = False,
            waitChan = [], started = False, exited = False, stdoutWriters = [],
            stderrWriters = [], closers = [], recvReady = False,
            recvVars = Map.empty\<rparr>"

definition world0 :: world where
  "world0 = \<lparr>envWatchParent = ''WATCH'', envExitAfter = ''EXIT'',
              durationString = (\<lambda>_. ''1s''), mapToSlice = (\<lambda>_. []),
              outputName = (\<lambda>d p. d @ ''/child.t''), openFile = (\<lambda>_. None),
              procStart = Inr 42\<rparr>"

definition world_fail :: world where
  "world_fail = world0\<lparr>procStart := Inl (osError ''exec: not found'')\<rparr>"

text \<open>The handle with the literal stdin text set, and the handle with a stdin pipe.\<close>

definition cmd_text :: Cmd where
  "cmd_text = cmd0\<lparr>Stdin := ''hello''\<rparr>"

definition cmd_pipe :: Cmd where
  "cmd_pipe = snd (stdinPipe (Inr 7) cmd0)"

text \<open>
  The handle with one caller's WriteCloser on stdout, the same handle with that
  WriteCloser on stderr as well, and the first of them after a start that failed to
  launch.
\<close>

definition cmd1 :: Cmd where
  "cmd1 = snd (addStdoutWriter (WriteCloser 1) cmd0)"

definition cmd2 :: Cmd where
  "cmd2 = snd (addStderrWriter (WriteCloser 1) cmd1)"

definition cmd1_failed :: Cmd where
  "cmd1_failed = fst (snd (start world_fail sh0 cmd1))"

text \<open>
  The started handle, and the started handle after the child has sent "ready" and a
  variable and has exited.
\<close>

definition cmd_run :: Cmd where
  "cmd_run = fst (snd (start world0 sh0 cmd0))"

definition cmd_race :: Cmd where
  "cmd_race = foldl do_action cmd_run [SetReady, MergeVars [''a'' \<mapsto> ''1''], SetExited]"

text \<open>
  A marker and a stand-in for \<^verbatim>\<open>json.Unmarshal\<close> that accepts four payloads and
  rejects every other text.
\<close>

definition marker0 :: string where
  "marker0 = ''#! ''"

definition unmarshal0 :: "string \<Rightarrow> error + msg" where
  "unmarshal0 s =
     (if s = ''{type:ready}'' then Inr \<lparr>Type = ''ready'', MVars = Map.empty\<rparr>
      else if s = ''{type:vars,vars:{a:1}}'' then
        Inr \<lparr>Type = ''vars'', MVars = [''a'' \<mapsto> ''1'']\<rparr>
      else if s = ''{type:vars,vars:{a:2,b:3}}'' then
        Inr \<lparr>Type = ''vars'', MVars = [''a'' \<mapsto> ''2'', ''b'' \<mapsto> ''3'']\<rparr>
      else if s = ''{type:bogus}'' then Inr \<lparr>Type = ''bogus'', MVars = Map.empty\<rparr>
      else Inl (osError ''invalid character''))"

section \<open>Properties\<close>

subsection \<open>Releasing closers\<close>

lemma closeClosers_loop_count:
  "count_list (closeClosers_loop cm xs) s = (if s \<in> set xs \<and> \<not> cm s then 1 else 0)"
  by (induction xs arbitrary: cm) auto

lemma closeClosers_loop_set: "set (closeClosers_loop cm xs) = {x \<in> set xs. \<not> cm x}"
  by (induction xs arbitrary: cm) auto

lemma closeClosers_loop_distinct: "distinct (closeClosers_loop cm xs)"
  by (induction xs arbitrary: cm) (auto simp: closeClosers_loop_set)

text \<open>
  C8: when the exit waiter releases the closers after the process has exited, every sink
  in the registry is closed exactly once, however many times it is registered (for
  example on the stdout list and on the stderr list), and no other sink is closed.
\<close>

theorem exitWaiter_closes_once:
  "count_list (snd (exitWaiter waitErr c)) s = (if s \<in> set (closers c) then 1 else 0) \<and>
   distinct (snd (exitWaiter waitErr c))"
  by (simp add: exitWaiter_def closeClosers_def closeClosers_loop_count
      closeClosers_loop_distinct Let_def)

theorem exitWaiter_closes_once_witness:
  "closers cmd2 = [WriteCloser 1, WriteCloser 1] \<and>
   count_list (snd (exitWaiter None cmd2)) (WriteCloser 1) = 1 \<and>
   count_list (snd (exitWaiter None cmd2)) (WriteCloser 2) = 0"
  using exitWaiter_closes_once [of None cmd2 "WriteCloser 1"]
    exitWaiter_closes_once [of None cmd2 "WriteCloser 2"]
  by (simp add: cmd2_def cmd1_def cmd0_def addStdoutWriter_def addStderrWriter_def)

subsection \<open>Cloning\<close>

text \<open>
  C2 (as amended): for every handle with a non-empty argument list, while the shell has
  not begun cleanup, clone returns a fresh handle in the configuring state whose path,
  environment, scalar configuration flags and stdin text equal the original's, whose
  argument list is the original's path followed by the original's arguments after the
  first (the original's list when argument 0 is the path), and whose sinks are not
  copied: the lists of stdout and stderr writers and of closers are empty and there is
  no stdin pipe.
\<close>

theorem clone_copies_configuration:
  assumes "Args c \<noteq> []" and "\<not> calledCleanup sh"
  shows "case clone sh c of
           Inl e \<Rightarrow> False
         | Inr (res, sh') \<Rightarrow>
             Path res = Path c \<and> Vars res = Vars c \<and> Args res = Path c # tl (Args c) \<and>
             (hd (Args c) = Path c \<longrightarrow> Args res = Args c) \<and>
             IgnoreParentExit res = IgnoreParentExit c \<and> ExitAfter res = ExitAfter c \<and>
             PropagateOutput res = PropagateOutput c \<and> OutputDir res = OutputDir c \<and>
             ExitErrorIsOk res = ExitErrorIsOk c \<and> Stdin res = Stdin c \<and>
             stdoutWriters res = [] \<and> stderrWriters res = [] \<and> closers res = [] \<and>
             stdinWriteCloser res = None \<and>
             \<not> calledStart res \<and> \<not> calledWait res \<and> \<not> started res \<and> \<not> exited res \<and>
             \<not> recvReady res \<and> recvVars res = Map.empty"
  using assms by (cases "Args c") (auto simp: clone_def newCmdInternal_def copyMap_def)

theorem clone_copies_configuration_witness:
  "Args cmd_text \<noteq> [] \<and> \<not> calledCleanup sh0 \<and>
   (case clone sh0 cmd_text of
      Inl e \<Rightarrow> False
    | Inr (res, sh') \<Rightarrow>
        Args res = [''/bin/child'', ''-v''] \<and> Stdin res = ''hello'' \<and> stdoutWriters res = [])"
  using clone_copies_configuration [of cmd_text sh0]
  by (simp add: clone_def newCmdInternal_def copyMap_def cmd_text_def cmd0_def sh0_def)

theorem clone_stdin_counterexample:
  "map_sum id (Stdin \<circ> fst) (clone sh0 cmd_text) = Inr ''hello''"
  by (simp add: clone_def newCmdInternal_def sh0_def cmd_text_def cmd0_def)

subsection \<open>Assembling the writers\<close>




lemma makeStdoutStderr_keeps:
  "Stdin (snd (makeStdoutStderr os c)) = Stdin c \<and>
   stdinWriteCloser (snd (makeStdoutStderr os c)) = stdinWriteCloser c \<and>
   eStdin (ec (snd (makeStdoutStderr os c))) = eStdin (ec c) \<and>
   started (snd (makeStdoutStderr os c)) = started c"
  by (simp add: makeStdoutStderr_def Let_def split: option.splits)



subsection \<open>Signalling\<close>

text \<open>
  C3 (as amended): on a handle that is not started, signal hands nothing to the
  operating system and returns errDidNotCallStart; on a started handle on which wait
  was called it returns errAlreadyCalledWait; on a started handle, wait not called,
  whose process has exited it returns no error without attempting delivery; and when
  delivery is attempted, the answer "os: process already finished" is treated as
  success, while any other error of the delivery is returned.
\<close>

theorem signal_outcomes:
  "(\<not> started c \<longrightarrow> signal ps c sig = (Some errDidNotCallStart, [])) \<and>
   (started c \<and> calledWait c \<longrightarrow> signal ps c sig = (Some errAlreadyCalledWait, [])) \<and>
   (started c \<and> \<not> calledWait c \<and> exited c \<longrightarrow> signal ps c sig = (None, [])) \<and>
   (started c \<and> \<not> calledWait c \<and> \<not> exited c \<and> ps sig = Some errFinished \<longrightarrow>
      signal ps c sig = (None, [sig])) \<and>
   (started c \<and> \<not> calledWait c \<and> \<not> exited c \<and> ps sig = None \<longrightarrow>
      signal ps c sig = (None, [sig])) \<and>
   (started c \<and> \<not> calledWait c \<and> \<not> exited c \<and> ps sig = Some m \<and> m \<noteq> errFinished \<longrightarrow>
      signal ps c sig = (Some (osError m), [sig]))"
  by (simp add: signal_def isRunning_def)

lemma cmd_run_flags:
  "started cmd_run \<and> \<not> calledWait cmd_run \<and> \<not> exited cmd_run \<and> \<not> recvReady cmd_run \<and>
   recvVars cmd_run = Map.empty"
  by (simp add: cmd_run_def start_def start_body_def start_launch_def makeStdoutStderr_def
      wrapWriters_def cmd0_def world0_def sh0_def Let_def)

theorem signal_outcomes_witness:
  "\<not> started cmd0 \<and> signal (\<lambda>_. None) cmd0 15 = (Some errDidNotCallStart, []) \<and>
   signal (\<lambda>_. None) (cmd_run\<lparr>calledWait := True\<rparr>) 15 = (Some errAlreadyCalledWait, []) \<and>
   signal (\<lambda>_. None) (do_action cmd_run SetExited) 15 = (None, []) \<and>
   signal (\<lambda>_. Some errFinished) cmd_run 15 = (None, [15]) \<and>
   signal (\<lambda>_. None) cmd_run 15 = (None, [15]) \<and>
   signal (\<lambda>_. Some ''operation not permitted'') cmd_run 15 =
     (Some (osError ''operation not permitted''), [15])"
  using cmd_run_flags
    signal_outcomes [of cmd0 "\<lambda>_. None" 15]
    signal_outcomes [of "cmd_run\<lparr>calledWait := True\<rparr>" "\<lambda>_. None" 15]
    signal_outcomes [of "do_action cmd_run SetExited" "\<lambda>_. None" 15]
    signal_outcomes [of cmd_run "\<lambda>_. Some errFinished" 15]
    signal_outcomes [of cmd_run "\<lambda>_. None" 15]
    signal_outcomes [of cmd_run "\<lambda>_. Some ''operation not permitted''" 15
                        "''operation not permitted''"]
  by (simp add: cmd0_def errFinished_def)

theorem signal_not_started_counterexample:
  "\<not> started cmd0 \<and> \<not> calledStart cmd0 \<and>
   fst (signal (\<lambda>_. None) cmd0 15) = Some errDidNotCallStart"
  by (simp add: signal_def cmd0_def)

subsection \<open>Starting\<close>

lemma start_fst: "fst (start os sh c) = fst (start_body os sh c)"
  by (simp add: start_def split: prod.splits)

lemma start_snd: "fst (snd (start os sh c)) = snd (start_body os sh c)"
  by (simp add: start_def split: prod.splits)

text \<open>
  A call of start on a handle on which start was called before returns
  errAlreadyCalledStart and leaves every field of the handle as it is; the deferred
  function closes the closers again unless the handle is started.
\<close>

lemma start_called_again:
  "calledStart c \<Longrightarrow>
   start os sh c =
     (Some errAlreadyCalledStart, c, if started c then [] else closeClosers c)"
  by (simp add: start_def start_body_def)

text \<open>
  C7: a second call of start returns errAlreadyCalledStart and leaves the handle as it
  is. At the handle with one caller's WriteCloser whose first start failed to launch
  the process, the first call closes the WriteCloser, and the second call, which
  returns errAlreadyCalledStart and the handle unchanged, closes it once more.
\<close>

theorem start_again_closes_again:
  "start world_fail sh0 cmd1 =
     (Some (osError ''exec: not found''), cmd1_failed, [WriteCloser 1]) \<and>
   start world0 sh0 cmd1_failed =
     (Some errAlreadyCalledStart, cmd1_failed, [WriteCloser 1])"
  by (simp add: cmd1_failed_def cmd1_def cmd0_def addStdoutWriter_def start_def
      start_body_def start_launch_def world_fail_def world0_def sh0_def
      makeStdoutStderr_def wrapWriters_def closeClosers_def Let_def)

lemma start_launch_keeps:
  "Stdin (snd (start_launch os c)) = Stdin c \<and>
   stdinWriteCloser (snd (start_launch os c)) = stdinWriteCloser c \<and>
   eStdin (ec (snd (start_launch os c))) = eStdin (ec c)"
proof -
  obtain r c' where mk: "makeStdoutStderr os c = (r, c')" by (cases "makeStdoutStderr os c")
  with makeStdoutStderr_keeps [of os c] show ?thesis
    by (simp add: start_launch_def split: sum.splits prod.splits)
qed

lemma start_body_conflict:
  "\<not> calledStart c \<Longrightarrow> \<not> calledCleanup sh \<Longrightarrow> Stdin c \<noteq> [] \<Longrightarrow>
   stdinWriteCloser c \<noteq> None \<Longrightarrow>
   fst (start_body os sh c) = Some errStdinConflict \<and>
   started (snd (start_body os sh c)) = started c \<and>
   eProcess (ec (snd (start_body os sh c))) = eProcess (ec c)"
  by (simp add: start_body_def Let_def)

lemma start_body_cleanup:
  "\<not> calledStart c \<Longrightarrow> calledCleanup sh \<Longrightarrow>
   fst (start_body os sh c) = Some errAlreadyCalledCleanup"
  by (simp add: start_body_def Let_def)

lemma start_body_ok_eStdin:
  assumes "\<not> calledStart c" and "fst (start_body os sh c) = None"
  shows "(Stdin c = [] \<or> stdinWriteCloser c = None) \<and>
         eStdin (ec (snd (start_body os sh c))) =
           (if Stdin c \<noteq> [] then Some (StringReader (Stdin c)) else eStdin (ec c))"
proof -
  from assms have nc: "\<not> calledCleanup sh" using start_body_cleanup [of c sh os] by auto
  from assms nc have nb: "Stdin c = [] \<or> stdinWriteCloser c = None"
    using start_body_conflict [of c sh os] by auto
  show ?thesis using assms(1) nc nb
    by (auto simp: start_body_def Let_def start_launch_keeps)
qed

lemma stdinPipe_result:
  assumes "stdinPipe pipeRes c = (Inr p, c')"
  shows "\<not> calledStart c' \<and> stdinWriteCloser c' = Some p"
proof -
  from assms have ns: "\<not> calledStart c" by (auto simp: stdinPipe_def split: if_splits)
  show ?thesis
  proof (cases "stdinWriteCloser c")
    case (Some q)
    with assms ns show ?thesis by (simp add: stdinPipe_def)
  next
    case None
    show ?thesis
    proof (cases pipeRes)
      case (Inl e)
      with None assms ns show ?thesis by (simp add: stdinPipe_def)
    next
      case (Inr q)
      with None assms ns
      have "c' = c\<lparr>stdinWriteCloser := Some p,
                     ec := (ec c)\<lparr>eStdin := Some (PipeReader p)\<rparr>\<rparr>"
        by (auto simp: stdinPipe_def)
      with ns show ?thesis by simp
    qed
  qed
qed

lemma stdinPipe_again:
  assumes "stdinPipe pipeRes c = (Inr p, c')"
  shows "stdinPipe pipeRes' c' = (Inr p, c')"
  using stdinPipe_result [OF assms] by (simp add: stdinPipe_def)

lemma start_body_both:
  assumes "Stdin c \<noteq> []" and "stdinWriteCloser c \<noteq> None"
  shows "fst (start_body os sh c) =
           Some (if calledStart c then errAlreadyCalledStart
                 else if calledCleanup sh then errAlreadyCalledCleanup
                 else errStdinConflict) \<and>
         started (snd (start_body os sh c)) = started c \<and>
         eProcess (ec (snd (start_body os sh c))) = eProcess (ec c)"
  using assms by (simp add: start_body_def Let_def)

lemma start_body_ok_fresh:
  "fst (start_body os sh c) = None \<Longrightarrow> \<not> calledStart c"
  by (auto simp: start_body_def)

text \<open>
  C4 (as amended): the conflict between the two stdin mechanisms is found by start, not
  when the second mechanism is requested. Before start, the stdin pipe accessor does
  not look at the stdin text: it returns the pipe it created earlier if there is one,
  and otherwise what the creation of the pipe answers, the new pipe or the error of
  the creation. A call of start on a handle with both a stdin text and a stdin pipe
  always fails and launches nothing: with errAlreadyCalledStart when start was called
  before, otherwise with errAlreadyCalledCleanup when the shell has begun cleanup, and
  otherwise with the conflicting-stdin error. After a start that succeeds at most one
  of the two is in use, the text being the reader handed to the process when it is
  set. And the stdin pipe accessor is idempotent: once it has returned a pipe, every
  further call returns the same pipe and leaves the handle as it is.
\<close>

theorem stdin_conflict_at_start:
  "(\<not> calledStart c \<longrightarrow>
      fst (stdinPipe pipeRes c) =
        (case stdinWriteCloser c of None \<Rightarrow> pipeRes | Some q \<Rightarrow> Inr q)) \<and>
   (Stdin c \<noteq> [] \<and> stdinWriteCloser c \<noteq> None \<longrightarrow>
      fst (start os sh c) =
        Some (if calledStart c then errAlreadyCalledStart
              else if calledCleanup sh then errAlreadyCalledCleanup
              else errStdinConflict) \<and>
      started (fst (snd (start os sh c))) = started c \<and>
      eProcess (ec (fst (snd (start os sh c)))) = eProcess (ec c)) \<and>
   (fst (start os sh c) = None \<longrightarrow>
      (Stdin c = [] \<or> stdinWriteCloser c = None) \<and>
      eStdin (ec (fst (snd (start os sh c)))) =
        (if Stdin c \<noteq> [] then Some (StringReader (Stdin c)) else eStdin (ec c))) \<and>
   (stdinPipe pipeRes c = (Inr p, c') \<longrightarrow> stdinPipe pipeRes' c' = (Inr p, c'))"
proof (intro conjI impI)
  assume "\<not> calledStart c"
  then show "fst (stdinPipe pipeRes c) =
      (case stdinWriteCloser c of None \<Rightarrow> pipeRes | Some q \<Rightarrow> Inr q)"
    by (simp add: stdinPipe_def split: option.splits sum.splits)
next
  assume a: "Stdin c \<noteq> [] \<and> stdinWriteCloser c \<noteq> None"
  then have b: "fst (start_body os sh c) =
           Some (if calledStart c then errAlreadyCalledStart
                 else if calledCleanup sh then errAlreadyCalledCleanup
                 else errStdinConflict) \<and>
         started (snd (start_body os sh c)) = started c \<and>
         eProcess (ec (snd (start_body os sh c))) = eProcess (ec c)"
    using start_body_both [of c os sh] by blast
  from b show "fst (start os sh c) =
        Some (if calledStart c then errAlreadyCalledStart
              else if calledCleanup sh then errAlreadyCalledCleanup
              else errStdinConflict)" by (simp add: start_fst)
  from b show "started (fst (snd (start os sh c))) = started c" by (simp add: start_snd)
  from b show "eProcess (ec (fst (snd (start os sh c)))) = eProcess (ec c)"
    by (simp add: start_snd)
next
  assume a: "fst (start os sh c) = None"
  then have ok: "fst (start_body os sh c) = None" by (simp add: start_fst)
  then have "\<not> calledStart c" by (rule start_body_ok_fresh)
  then have b: "(Stdin c = [] \<or> stdinWriteCloser c = None) \<and>
         eStdin (ec (snd (start_body os sh c))) =
           (if Stdin c \<noteq> [] then Some (StringReader (Stdin c)) else eStdin (ec c))"
    using ok by (rule start_body_ok_eStdin)
  from b show "Stdin c = [] \<or> stdinWriteCloser c = None" by simp
  from b show "eStdin (ec (fst (snd (start os sh c)))) =
        (if Stdin c \<noteq> [] then Some (StringReader (Stdin c)) else eStdin (ec c))"
    by (simp add: start_snd)
next
  assume "stdinPipe pipeRes c = (Inr p, c')"
  then show "stdinPipe pipeRes' c' = (Inr p, c')" by (rule stdinPipe_again)
qed

lemma cmd_pipe_eq:
  "cmd_pipe = cmd0\<lparr>stdinWriteCloser := Some 7,
                      ec := exec_zero\<lparr>eStdin := Some (PipeReader 7)\<rparr>\<rparr>"
  by (simp add: cmd_pipe_def stdinPipe_def cmd0_def)

theorem stdin_conflict_at_start_witness:
  "fst (stdinPipe (Inr 7) cmd_text) = Inr 7 \<and>
   fst (stdinPipe (Inl (osError ''too many open files'')) cmd_text) =
     Inl (osError ''too many open files'') \<and>
   stdinWriteCloser (cmd_pipe\<lparr>Stdin := ''hello''\<rparr>) = Some 7 \<and>
   fst (start world0 sh0 (cmd_pipe\<lparr>Stdin := ''hello''\<rparr>)) = Some errStdinConflict \<and>
   fst (start world0 (sh0\<lparr>calledCleanup := True\<rparr>) (cmd_pipe\<lparr>Stdin := ''hello''\<rparr>)) =
     Some errAlreadyCalledCleanup \<and>
   eProcess (ec (fst (snd (start world0 sh0 (cmd_pipe\<lparr>Stdin := ''hello''\<rparr>))))) = None \<and>
   fst (start world0 sh0 cmd_text) = None \<and>
   eStdin (ec (fst (snd (start world0 sh0 cmd_text)))) = Some (StringReader ''hello'') \<and>
   stdinPipe (Inr 7) cmd0 = (Inr 7, cmd_pipe) \<and>
   stdinPipe (Inr 8) cmd_pipe = (Inr 7, cmd_pipe)"
proof -
  let ?both = "cmd_pipe\<lparr>Stdin := ''hello''\<rparr>"
  let ?e = "Inl (osError ''too many open files'') :: error + nat"
  have pre: "\<not> calledStart cmd_text" "Stdin cmd_text \<noteq> []" "stdinWriteCloser cmd_text = None"
    "\<not> calledStart cmd0" "\<not> calledCleanup sh0" "calledCleanup (sh0\<lparr>calledCleanup := True\<rparr>)"
    "\<not> calledStart ?both" "Stdin ?both \<noteq> []"
    "stdinWriteCloser ?both = Some 7"
    "eProcess (ec ?both) = None"
    by (simp_all add: cmd_text_def cmd_pipe_eq cmd0_def sh0_def exec_zero_def)
  have ok: "fst (start world0 sh0 cmd_text) = None"
    by (simp add: start_fst start_body_def start_launch_def makeStdoutStderr_def
        wrapWriters_def cmd_text_def cmd0_def world0_def sh0_def Let_def)
  have first: "stdinPipe (Inr 7) cmd0 = (Inr 7, cmd_pipe)"
    by (simp add: cmd_pipe_def stdinPipe_def cmd0_def)
  note t1 = stdin_conflict_at_start [of cmd_text "Inr 7" world0 sh0 7 cmd_text "Inr 7"]
  note t2 = stdin_conflict_at_start [of cmd_text ?e world0 sh0 7 cmd_text "Inr 7"]
  note t3 = stdin_conflict_at_start [of ?both "Inr 7" world0 sh0 7 cmd_text "Inr 7"]
  note t4 = stdin_conflict_at_start
    [of ?both "Inr 7" world0 "sh0\<lparr>calledCleanup := True\<rparr>" 7 cmd_text "Inr 7"]
  note t5 = stdin_conflict_at_start [of cmd0 "Inr 7" world0 sh0 7 cmd_pipe "Inr 8"]
  have a: "fst (stdinPipe (Inr 7) cmd_text) = Inr 7"
    using pre(1,3) t1 [THEN conjunct1] by simp
  have a': "fst (stdinPipe ?e cmd_text) = ?e"
    using pre(1,3) t2 [THEN conjunct1] by simp
  have b: "fst (start world0 sh0 ?both) = Some errStdinConflict \<and>
    eProcess (ec (fst (snd (start world0 sh0 ?both)))) = None"
    using pre(5,7-10) t3 [THEN conjunct2, THEN conjunct1] by simp
  have b': "fst (start world0 (sh0\<lparr>calledCleanup := True\<rparr>) ?both) =
      Some errAlreadyCalledCleanup"
    using pre(6-9) t4 [THEN conjunct2, THEN conjunct1] by simp
  have c: "eStdin (ec (fst (snd (start world0 sh0 cmd_text)))) = Some (StringReader ''hello'')"
    using ok t1 [THEN conjunct2, THEN conjunct2, THEN conjunct1]
    by (simp add: cmd_text_def)
  have d: "stdinPipe (Inr 8) cmd_pipe = (Inr 7, cmd_pipe)"
    using first t5 [THEN conjunct2, THEN conjunct2, THEN conjunct2] by blast
  from a a' b b' c d ok first pre(9) show ?thesis by blast
qed

theorem stdinPipe_after_text_counterexample:
  "Stdin cmd_text = ''hello'' \<and> \<not> calledStart cmd_text \<and>
   fst (stdinPipe (Inr 7) cmd_text) = Inr 7 \<and>
   Stdin (snd (stdinPipe (Inr 7) cmd_text)) = ''hello''"
  by (simp add: stdinPipe_def cmd_text_def cmd0_def)

subsection \<open>The decoder\<close>

lemma reset_line_zero: "reset_line w = recvWriter_zero"
  by (simp add: reset_line_def recvWriter_zero_def)

lemma recv_bytes_append:
  "recv_bytes pfx unm (p @ q) s =
     (case recv_bytes pfx unm p s of
        (Some e, s') \<Rightarrow> (Some e, s')
      | (None, s') \<Rightarrow> recv_bytes pfx unm q s')"
  by (induction p arbitrary: s) (auto split: sum.splits)

text \<open>Bytes of a line before the marker is complete are collected.\<close>

lemma recv_bytes_collect:
  "nl \<notin> set xs \<Longrightarrow> length b0 + length xs < length pfx \<Longrightarrow>
   recv_bytes pfx unm xs (\<lparr>buf = b0, readPrefix = False, skipLine = False\<rparr>, c) =
     (None, \<lparr>buf = b0 @ xs, readPrefix = False, skipLine = False\<rparr>, c)"
  by (induction xs arbitrary: b0) (auto simp: recv_byte_def Let_def)

lemma recv_byte_complete:
  "x \<noteq> nl \<Longrightarrow> Suc (length b0) = length pfx \<Longrightarrow>
   recv_byte pfx unm x (\<lparr>buf = b0, readPrefix = False, skipLine = False\<rparr>, c) =
     Inr (\<lparr>buf = [], readPrefix = True, skipLine = (b0 @ [x] \<noteq> pfx)\<rparr>, c)"
  by (simp add: recv_byte_def Let_def)

lemma recv_bytes_payload:
  "nl \<notin> set xs \<Longrightarrow>
   recv_bytes pfx unm xs (\<lparr>buf = b0, readPrefix = True, skipLine = False\<rparr>, c) =
     (None, \<lparr>buf = b0 @ xs, readPrefix = True, skipLine = False\<rparr>, c)"
  by (induction xs arbitrary: b0) (auto simp: recv_byte_def Let_def)

lemma recv_bytes_skip:
  "nl \<notin> set xs \<Longrightarrow>
   recv_bytes pfx unm xs (\<lparr>buf = b0, readPrefix = r, skipLine = True\<rparr>, c) =
     (None, \<lparr>buf = b0, readPrefix = r, skipLine = True\<rparr>, c)"
  by (induction xs) (auto simp: recv_byte_def Let_def)

text \<open>A line that starts with the marker: the decoder holds the rest of the line.\<close>

lemma recv_bytes_marked:
  assumes "pfx \<noteq> []" and "nl \<notin> set line" and "take (length pfx) line = pfx"
  shows "recv_bytes pfx unm line (recvWriter_zero, c) =
           (None, \<lparr>buf = drop (length pfx) line, readPrefix = True, skipLine = False\<rparr>, c)"
proof -
  from assms(1) obtain p0 x where px: "pfx = p0 @ [x]" by (cases pfx rule: rev_cases) auto
  define rest where "rest = drop (length pfx) line"
  have "line = take (length pfx) line @ rest" by (simp add: rest_def)
  with assms(3) px have line: "line = p0 @ x # rest" by simp
  with assms(2) have n0: "nl \<notin> set p0" and nx: "x \<noteq> nl" and nr: "nl \<notin> set rest" by auto
  have 1: "recv_bytes pfx unm p0 (recvWriter_zero, c) =
             (None, \<lparr>buf = p0, readPrefix = False, skipLine = False\<rparr>, c)"
    using recv_bytes_collect [OF n0, of "[]" pfx unm c] px by (simp add: recvWriter_zero_def)
  have 2: "recv_byte pfx unm x (\<lparr>buf = p0, readPrefix = False, skipLine = False\<rparr>, c) =
             Inr (\<lparr>buf = [], readPrefix = True, skipLine = False\<rparr>, c)"
    using recv_byte_complete [OF nx, of p0 pfx unm c] px by simp
  have "recv_bytes pfx unm (p0 @ x # rest) (recvWriter_zero, c) =
          (None, \<lparr>buf = rest, readPrefix = True, skipLine = False\<rparr>, c)"
    using recv_bytes_payload [OF nr, of pfx unm "[]" c]
    by (simp add: recv_bytes_append 1 2)
  with line have "recv_bytes pfx unm line (recvWriter_zero, c) =
          (None, \<lparr>buf = rest, readPrefix = True, skipLine = False\<rparr>, c)" by simp
  then show ?thesis by (simp only: rest_def)
qed

text \<open>A line that does not start with the marker leaves the decoder collecting or skipping.\<close>

lemma recv_bytes_unmarked:
  assumes "pfx \<noteq> []" and "nl \<notin> set line" and "take (length pfx) line \<noteq> pfx"
  shows "\<exists>w. recv_bytes pfx unm line (recvWriter_zero, c) = (None, w, c) \<and>
             \<not> (readPrefix w \<and> \<not> skipLine w)"
proof (cases "length line < length pfx")
  case True
  then show ?thesis
    using recv_bytes_collect [OF assms(2), of "[]" pfx unm c]
    by (simp add: recvWriter_zero_def)
next
  case False
  from assms(1) obtain p0 x where px: "pfx = p0 @ [x]" by (cases pfx rule: rev_cases) auto
  define rest where "rest = drop (length pfx) line"
  define hd0 where "hd0 = take (length p0) line"
  define y where "y = line ! length p0"
  from False px have len: "length p0 < length line" by simp
  have tk: "take (length pfx) line = hd0 @ [y]"
    using len px by (simp add: hd0_def y_def take_Suc_conv_app_nth)
  have "line = take (length pfx) line @ rest" by (simp add: rest_def)
  with tk have line: "line = hd0 @ y # rest" by simp
  with assms(2) have n0: "nl \<notin> set hd0" and ny: "y \<noteq> nl" and nr: "nl \<notin> set rest" by auto
  have l0: "length hd0 = length p0" using len by (simp add: hd0_def)
  have 1: "recv_bytes pfx unm hd0 (recvWriter_zero, c) =
             (None, \<lparr>buf = hd0, readPrefix = False, skipLine = False\<rparr>, c)"
    using recv_bytes_collect [OF n0, of "[]" pfx unm c] px l0 by (simp add: recvWriter_zero_def)
  have 2: "recv_byte pfx unm y (\<lparr>buf = hd0, readPrefix = False, skipLine = False\<rparr>, c) =
             Inr (\<lparr>buf = [], readPrefix = True, skipLine = True\<rparr>, c)"
    using recv_byte_complete [OF ny, of hd0 pfx unm c] px l0 tk assms(3) by simp
  have "recv_bytes pfx unm (hd0 @ y # rest) (recvWriter_zero, c) =
          (None, \<lparr>buf = [], readPrefix = True, skipLine = True\<rparr>, c)"
    using recv_bytes_skip [OF nr, of pfx unm "[]" True c]
    by (simp add: recv_bytes_append 1 2)
  with line have "recv_bytes pfx unm line (recvWriter_zero, c) =
          (None, \<lparr>buf = [], readPrefix = True, skipLine = True\<rparr>, c)" by simp
  then show ?thesis by simp
qed

lemma recv_byte_nl_inert:
  "\<not> (readPrefix w \<and> \<not> skipLine w) \<Longrightarrow> recv_byte pfx unm nl (w, c) = Inr (recvWriter_zero, c)"
  by (auto simp: recv_byte_def reset_line_zero)

lemma recv_byte_nl_marked:
  "recv_byte pfx unm nl (\<lparr>buf = b, readPrefix = True, skipLine = False\<rparr>, c) =
     (case unm b of
        Inl e \<Rightarrow> Inl e
      | Inr m \<Rightarrow>
          if Type m = typeReady then Inr (recvWriter_zero, do_action c SetReady)
          else if Type m = typeVars then Inr (recvWriter_zero, do_action c (MergeVars (MVars m)))
          else Inl (errUnknownMessageType (Type m)))"
  by (simp add: recv_byte_def reset_line_zero split: sum.splits)

text \<open>After a successful write that ends with a newline the decoder is at a line start.\<close>

lemma recv_bytes_line_start:
  assumes "recv_bytes pfx unm (pre @ [nl]) s = (None, w, c)"
  shows "w = recvWriter_zero"
proof -
  obtain r s1 where p: "recv_bytes pfx unm pre s = (r, s1)" by (cases "recv_bytes pfx unm pre s")
  with assms have r: "r = None" by (cases r) (simp_all add: recv_bytes_append)
  obtain w1 c1 where s1: "s1 = (w1, c1)" by (cases s1)
  from assms p r s1 show ?thesis
    by (auto simp: recv_bytes_append recv_byte_def reset_line_zero split: sum.splits if_splits)
qed


lemma recv_byte_actions:
  "recv_byte pfx unm b (w, c) = Inr (w', c') \<Longrightarrow>
   c' = c \<or> c' = do_action c SetReady \<or>
   c' = do_action c (MergeVars (MVars (projr (unm (buf w)))))"
  by (auto simp: recv_byte_def Let_def split: if_splits sum.splits)

lemma do_action_dom: "dom (recvVars c) \<subseteq> dom (recvVars (do_action c a))"
  by (cases a) (auto simp: mergeMaps_def)

lemma recv_byte_dom:
  "recv_byte pfx unm b (w, c) = Inr (w', c') \<Longrightarrow> dom (recvVars c) \<subseteq> dom (recvVars c')"
  using recv_byte_actions [of pfx unm b w c w' c'] do_action_dom [of c SetReady]
    do_action_dom [of c "MergeVars (MVars (projr (unm (buf w))))"] by auto

lemma recv_bytes_dom:
  "recv_bytes pfx unm p (w, c) = (r, w', c') \<Longrightarrow> dom (recvVars c) \<subseteq> dom (recvVars c')"
proof (induction p arbitrary: w c)
  case Nil
  then show ?case by simp
next
  case (Cons b p)
  show ?case
  proof (cases "recv_byte pfx unm b (w, c)")
    case (Inl e)
    with Cons.prems show ?thesis by simp
  next
    case (Inr s1)
    obtain w1 c1 where s1: "s1 = (w1, c1)" by (cases s1)
    from Inr s1 have "dom (recvVars c) \<subseteq> dom (recvVars c1)" by (simp add: recv_byte_dom)
    moreover from Cons.prems Inr s1 have "recv_bytes pfx unm p (w1, c1) = (r, w', c')" by simp
    then have "dom (recvVars c1) \<subseteq> dom (recvVars c')" by (rule Cons.IH)
    ultimately show ?thesis by blast
  qed
qed

lemma recv_bytes_vars_line:
  assumes "pfx \<noteq> []" and "nl \<notin> set (pfx @ j)" and "unm j = Inr m" and "Type m = typeVars"
  shows "recv_bytes pfx unm (pfx @ j @ [nl]) (recvWriter_zero, c) =
           (None, recvWriter_zero, do_action c (MergeVars (MVars m)))"
proof -
  have "recv_bytes pfx unm (pfx @ j) (recvWriter_zero, c) =
          (None, \<lparr>buf = j, readPrefix = True, skipLine = False\<rparr>, c)"
    using recv_bytes_marked [OF assms(1,2), of unm c] by simp
  then have "recv_bytes pfx unm ((pfx @ j) @ [nl]) (recvWriter_zero, c) =
          (None, recvWriter_zero, do_action c (MergeVars (MVars m)))"
    unfolding recv_bytes_append [of pfx unm "pfx @ j" "[nl]"]
    using assms(3,4) by (simp add: recv_byte_nl_marked typeVars_def typeReady_def)
  then show ?thesis by simp
qed

text \<open>
  C5: a merge into the shared variables overwrites the keys the message carries, keeps
  every other key and deletes none; two "vars" messages carrying a=1 and then a=2, b=3,
  written to the decoder of a handle without variables, leave exactly a=2, b=3; and
  after every write to the decoder, whatever it returns, every key that was in the
  variables is still there.
\<close>

theorem vars_merge_never_deletes:
  "(\<forall>k. mergeMaps a b k = (case b k of Some v \<Rightarrow> Some v | None \<Rightarrow> a k)) \<and>
   dom (mergeMaps a b) = dom a \<union> dom b \<and>
   mergeMaps (mergeMaps Map.empty [''a'' \<mapsto> ''1'']) [''a'' \<mapsto> ''2'', ''b'' \<mapsto> ''3''] =
     [''a'' \<mapsto> ''2'', ''b'' \<mapsto> ''3''] \<and>
   (msgPrefix \<noteq> [] \<and> nl \<notin> set (msgPrefix @ j1 @ j2) \<and> recvVars c = Map.empty \<and>
    unmarshal j1 = Inr \<lparr>Type = typeVars, MVars = [''a'' \<mapsto> ''1'']\<rparr> \<and>
    unmarshal j2 = Inr \<lparr>Type = typeVars, MVars = [''a'' \<mapsto> ''2'', ''b'' \<mapsto> ''3'']\<rparr> \<longrightarrow>
      fst (recvWriter_Write msgPrefix unmarshal
             (msgPrefix @ j1 @ [nl] @ msgPrefix @ j2 @ [nl]) (recvWriter_zero, c)) =
        (length (msgPrefix @ j1 @ [nl] @ msgPrefix @ j2 @ [nl]), None) \<and>
      recvVars (snd (snd (recvWriter_Write msgPrefix unmarshal
             (msgPrefix @ j1 @ [nl] @ msgPrefix @ j2 @ [nl]) (recvWriter_zero, c)))) =
        [''a'' \<mapsto> ''2'', ''b'' \<mapsto> ''3'']) \<and>
   (recvWriter_Write msgPrefix unmarshal p (w, c) = (r, w', c') \<longrightarrow>
      dom (recvVars c) \<subseteq> dom (recvVars c'))"
proof (intro conjI impI allI)
  fix k show "mergeMaps a b k = (case b k of Some v \<Rightarrow> Some v | None \<Rightarrow> a k)"
    by (simp add: mergeMaps_def map_add_def split: option.splits)
next
  show "dom (mergeMaps a b) = dom a \<union> dom b" by (auto simp: mergeMaps_def)
next
  show "mergeMaps (mergeMaps Map.empty [''a'' \<mapsto> ''1'']) [''a'' \<mapsto> ''2'', ''b'' \<mapsto> ''3''] =
     [''a'' \<mapsto> ''2'', ''b'' \<mapsto> ''3'']"
    by (simp add: mergeMaps_def)
next
  assume h: "msgPrefix \<noteq> [] \<and> nl \<notin> set (msgPrefix @ j1 @ j2) \<and> recvVars c = Map.empty \<and>
    unmarshal j1 = Inr \<lparr>Type = typeVars, MVars = [''a'' \<mapsto> ''1'']\<rparr> \<and>
    unmarshal j2 = Inr \<lparr>Type = typeVars, MVars = [''a'' \<mapsto> ''2'', ''b'' \<mapsto> ''3'']\<rparr>"
  let ?m1 = "\<lparr>Type = typeVars, MVars = [''a'' \<mapsto> ''1'']\<rparr>"
  let ?m2 = "\<lparr>Type = typeVars, MVars = [''a'' \<mapsto> ''2'', ''b'' \<mapsto> ''3'']\<rparr>"
  let ?c1 = "do_action c (MergeVars [''a'' \<mapsto> ''1''])"
  let ?c2 = "do_action ?c1 (MergeVars [''a'' \<mapsto> ''2'', ''b'' \<mapsto> ''3''])"
  from h have p: "msgPrefix \<noteq> []" and n1: "nl \<notin> set (msgPrefix @ j1)"
    and n2: "nl \<notin> set (msgPrefix @ j2)" and u1: "unmarshal j1 = Inr ?m1"
    and u2: "unmarshal j2 = Inr ?m2" by simp_all
  have t1: "Type ?m1 = typeVars" and t2: "Type ?m2 = typeVars" by simp_all
  have l1: "recv_bytes msgPrefix unmarshal (msgPrefix @ j1 @ [nl]) (recvWriter_zero, c) =
      (None, recvWriter_zero, ?c1)"
    using recv_bytes_vars_line [of msgPrefix j1 unmarshal ?m1 c, OF p n1 u1 t1]
    by (simp del: do_action.simps)
  have l2: "recv_bytes msgPrefix unmarshal (msgPrefix @ j2 @ [nl]) (recvWriter_zero, ?c1) =
      (None, recvWriter_zero, ?c2)"
    using recv_bytes_vars_line [of msgPrefix j2 unmarshal ?m2 ?c1, OF p n2 u2 t2]
    by (simp del: do_action.simps)
  have "recv_bytes msgPrefix unmarshal ((msgPrefix @ j1 @ [nl]) @ (msgPrefix @ j2 @ [nl]))
          (recvWriter_zero, c) = (None, recvWriter_zero, ?c2)"
    unfolding recv_bytes_append [of msgPrefix unmarshal "msgPrefix @ j1 @ [nl]"]
    by (simp add: l1 l2 del: do_action.simps)
  then have all: "recv_bytes msgPrefix unmarshal (msgPrefix @ j1 @ [nl] @ msgPrefix @ j2 @ [nl])
          (recvWriter_zero, c) = (None, recvWriter_zero, ?c2)" by simp
  from h have v: "recvVars ?c2 = [''a'' \<mapsto> ''2'', ''b'' \<mapsto> ''3'']" by (simp add: mergeMaps_def)
  show "fst (recvWriter_Write msgPrefix unmarshal
             (msgPrefix @ j1 @ [nl] @ msgPrefix @ j2 @ [nl]) (recvWriter_zero, c)) =
        (length (msgPrefix @ j1 @ [nl] @ msgPrefix @ j2 @ [nl]), None)"
    unfolding recvWriter_Write_def all by simp
  show "recvVars (snd (snd (recvWriter_Write msgPrefix unmarshal
             (msgPrefix @ j1 @ [nl] @ msgPrefix @ j2 @ [nl]) (recvWriter_zero, c)))) =
        [''a'' \<mapsto> ''2'', ''b'' \<mapsto> ''3'']"
    unfolding recvWriter_Write_def all using v by simp
next
  assume "recvWriter_Write msgPrefix unmarshal p (w, c) = (r, w', c')"
  then obtain e where "recv_bytes msgPrefix unmarshal p (w, c) = (e, w', c')"
    by (auto simp: recvWriter_Write_def split: prod.splits option.splits)
  then show "dom (recvVars c) \<subseteq> dom (recvVars c')" by (rule recv_bytes_dom)
qed

theorem vars_merge_never_deletes_witness:
  "mergeMaps [''a'' \<mapsto> ''1''] [''a'' \<mapsto> ''2'', ''b'' \<mapsto> ''3''] ''a'' = Some ''2'' \<and>
   recvVars cmd0 = Map.empty \<and>
   recvVars (snd (snd (recvWriter_Write marker0 unmarshal0
       (''#! {type:vars,vars:{a:1}}'' @ [nl] @ ''#! {type:vars,vars:{a:2,b:3}}'' @ [nl])
       (recvWriter_zero, cmd0)))) = [''a'' \<mapsto> ''2'', ''b'' \<mapsto> ''3''] \<and>
   dom (recvVars cmd0) \<subseteq> dom (recvVars (snd (snd (recvWriter_Write marker0 unmarshal0
       (''#! {type:vars,vars:{a:1}}'' @ [nl]) (recvWriter_zero, cmd0)))))"
proof -
  let ?p = "''#! {type:vars,vars:{a:1}}'' @ [nl]"
  let ?r = "recvWriter_Write marker0 unmarshal0 ?p (recvWriter_zero, cmd0)"
  have e: "recvVars cmd0 = Map.empty" by (simp add: cmd0_def)
  have a: "mergeMaps [''a'' \<mapsto> ''1''] [''a'' \<mapsto> ''2'', ''b'' \<mapsto> ''3''] ''a'' = Some ''2''"
    using vars_merge_never_deletes
      [of "[''a'' \<mapsto> ''1'']" "[''a'' \<mapsto> ''2'', ''b'' \<mapsto> ''3'']" marker0
          "''{type:vars,vars:{a:1}}''" "''{type:vars,vars:{a:2,b:3}}''" cmd0 unmarshal0
          ?p recvWriter_zero "fst ?r" "fst (snd ?r)" "snd (snd ?r)"]
    by simp
  have b: "recvVars (snd (snd (recvWriter_Write marker0 unmarshal0
       (''#! {type:vars,vars:{a:1}}'' @ [nl] @ ''#! {type:vars,vars:{a:2,b:3}}'' @ [nl])
       (recvWriter_zero, cmd0)))) = [''a'' \<mapsto> ''2'', ''b'' \<mapsto> ''3'']"
    using e vars_merge_never_deletes
      [of "[''a'' \<mapsto> ''1'']" "[''a'' \<mapsto> ''2'', ''b'' \<mapsto> ''3'']" marker0
          "''{type:vars,vars:{a:1}}''" "''{type:vars,vars:{a:2,b:3}}''" cmd0 unmarshal0
          ?p recvWriter_zero "fst ?r" "fst (snd ?r)" "snd (snd ?r)"]
    by (simp add: marker0_def unmarshal0_def typeVars_def nl_def)
  have c: "dom (recvVars cmd0) \<subseteq> dom (recvVars (snd (snd ?r)))"
    using vars_merge_never_deletes
      [of "[''a'' \<mapsto> ''1'']" "[''a'' \<mapsto> ''2'', ''b'' \<mapsto> ''3'']" marker0
          "''{type:vars,vars:{a:1}}''" "''{type:vars,vars:{a:2,b:3}}''" cmd0 unmarshal0
          ?p recvWriter_zero "fst ?r" "fst (snd ?r)" "snd (snd ?r)"]
    by simp
  from a b c e show ?thesis by simp
qed

lemma recvWriter_Writes_concat:
  "recvWriter_Writes pfx unm ps s = recv_bytes pfx unm (concat ps) s"
proof (induction ps arbitrary: s)
  case Nil
  show ?case by simp
next
  case (Cons p ps)
  obtain r s' where p: "recv_bytes pfx unm p s = (r, s')" by (cases "recv_bytes pfx unm p s")
  show ?case
  proof (cases r)
    case None
    with p Cons.IH [of s'] show ?thesis
      by (simp add: recvWriter_Write_def recv_bytes_append)
  next
    case (Some e)
    with p show ?thesis by (simp add: recvWriter_Write_def recv_bytes_append)
  qed
qed

lemma recv_bytes_pre_line_start:
  assumes "pre = [] \<or> last pre = nl"
    and "recv_bytes pfx unm pre (recvWriter_zero, c0) = (None, wp, cp)"
  shows "wp = recvWriter_zero"
proof (cases "pre = []")
  case True
  with assms(2) show ?thesis by simp
next
  case False
  with assms(1) have "pre = butlast pre @ [nl]" by (metis append_butlast_last_id)
  with assms(2) have "recv_bytes pfx unm (butlast pre @ [nl]) (recvWriter_zero, c0) =
      (None, wp, cp)" by simp
  then show ?thesis by (rule recv_bytes_line_start)
qed

text \<open>What the decoder does with a whole line and its newline from a line start.\<close>

lemma recv_bytes_marked_line:
  assumes "pfx \<noteq> []" and "nl \<notin> set line" and "take (length pfx) line = pfx"
  shows "recv_bytes pfx unm (line @ nl # rest) (recvWriter_zero, c) =
           (case unm (drop (length pfx) line) of
              Inl e \<Rightarrow> (Some e, \<lparr>buf = drop (length pfx) line, readPrefix = True,
                                  skipLine = False\<rparr>, c)
            | Inr m \<Rightarrow>
                if Type m = typeReady
                then recv_bytes pfx unm rest (recvWriter_zero, do_action c SetReady)
                else if Type m = typeVars
                then recv_bytes pfx unm rest (recvWriter_zero, do_action c (MergeVars (MVars m)))
                else (Some (errUnknownMessageType (Type m)),
                      \<lparr>buf = drop (length pfx) line, readPrefix = True, skipLine = False\<rparr>, c))"
  using recv_bytes_marked [OF assms, of unm c]
  by (simp add: recv_bytes_append recv_byte_nl_marked split: sum.splits)

lemma recv_bytes_unmarked_line:
  assumes "pfx \<noteq> []" and "nl \<notin> set line" and "take (length pfx) line \<noteq> pfx"
  shows "recv_bytes pfx unm (line @ nl # rest) (recvWriter_zero, c) =
           recv_bytes pfx unm rest (recvWriter_zero, c)"
proof -
  from recv_bytes_unmarked [OF assms, of unm c] obtain w1 where
    1: "recv_bytes pfx unm line (recvWriter_zero, c) = (None, w1, c)"
    and 2: "\<not> (readPrefix w1 \<and> \<not> skipLine w1)" by blast
  from 2 have 3: "recv_byte pfx unm nl (w1, c) = Inr (recvWriter_zero, c)"
    by (rule recv_byte_nl_inert)
  show ?thesis by (simp add: recv_bytes_append 1 3)
qed

text \<open>
  The bytes of this write, from the state the earlier writes left, are decoded as the
  end of the whole stream from a new decoder.
\<close>

lemma recv_bytes_resume:
  assumes "recvWriter_Writes pfx unm chunks (recvWriter_zero, c0) = (None, w, c)"
    and "concat chunks @ a = pre @ line"
  shows "recv_bytes pfx unm (a @ t) (w, c) =
           recv_bytes pfx unm (pre @ line @ t) (recvWriter_zero, c0)"
proof -
  from assms(1) have h: "recv_bytes pfx unm (concat chunks) (recvWriter_zero, c0) = (None, w, c)"
    by (simp add: recvWriter_Writes_concat)
  have "recv_bytes pfx unm (pre @ line @ t) (recvWriter_zero, c0) =
          recv_bytes pfx unm ((concat chunks @ a) @ t) (recvWriter_zero, c0)"
    by (simp add: assms(2))
  also have "\<dots> = recv_bytes pfx unm (concat chunks @ (a @ t)) (recvWriter_zero, c0)" by simp
  also have "\<dots> = recv_bytes pfx unm (a @ t) (w, c)"
    unfolding recv_bytes_append [of pfx unm "concat chunks"] by (simp add: h)
  finally show ?thesis by simp
qed

text \<open>
  C6: the decoder is new when the first chunk of the child's stdout is written to it,
  and every earlier call of Write was accepted (the copy of the stream stops at the
  first error). Take any complete line of the stream: it follows the start of the
  stream or a newline, it may begin in earlier writes and it may follow other lines in
  the same write; the write that holds its newline is the write in question. If the
  line starts with the marker and the JSON parser rejects its remainder, or the
  remainder parses to a message whose type tag is neither "ready" nor "vars", that
  write returns an error with count 0, and when the bytes before the line were accepted
  it is the parser's error, respectively the unknown-type error. If the line does not
  start with the marker it is inert: the write decodes as the stream with the line
  removed would be decoded, and when the bytes before the line were accepted the write
  up to the newline returns no error, leaves the decoder at a line start and leaves the
  handle (ready flag and variables included) as it was before the line, so that the
  write fails only if the bytes after the line make it fail.
\<close>

theorem decoder_marked_and_inert_lines:
  assumes "msgPrefix \<noteq> []" and "nl \<notin> set line" and "pre = [] \<or> last pre = nl"
    and "recvWriter_Writes msgPrefix unmarshal chunks (recvWriter_zero, c0) = (None, w, c)"
    and "concat chunks @ a = pre @ line"
  shows "(take (length msgPrefix) line = msgPrefix \<and>
          unmarshal (drop (length msgPrefix) line) = Inl e \<longrightarrow>
            fst (fst (recvWriter_Write msgPrefix unmarshal (a @ nl # rest) (w, c))) = 0 \<and>
            snd (fst (recvWriter_Write msgPrefix unmarshal (a @ nl # rest) (w, c))) \<noteq> None \<and>
            (recv_bytes msgPrefix unmarshal pre (recvWriter_zero, c0) = (None, wp, cp) \<longrightarrow>
               fst (recvWriter_Write msgPrefix unmarshal (a @ nl # rest) (w, c)) =
                 (0, Some e))) \<and>
         (take (length msgPrefix) line = msgPrefix \<and>
          unmarshal (drop (length msgPrefix) line) = Inr m \<and>
          Type m \<noteq> typeReady \<and> Type m \<noteq> typeVars \<longrightarrow>
            fst (fst (recvWriter_Write msgPrefix unmarshal (a @ nl # rest) (w, c))) = 0 \<and>
            snd (fst (recvWriter_Write msgPrefix unmarshal (a @ nl # rest) (w, c))) \<noteq> None \<and>
            (recv_bytes msgPrefix unmarshal pre (recvWriter_zero, c0) = (None, wp, cp) \<longrightarrow>
               fst (recvWriter_Write msgPrefix unmarshal (a @ nl # rest) (w, c)) =
                 (0, Some (errUnknownMessageType (Type m))))) \<and>
         (take (length msgPrefix) line \<noteq> msgPrefix \<longrightarrow>
            recv_bytes msgPrefix unmarshal (a @ nl # rest) (w, c) =
              recv_bytes msgPrefix unmarshal (pre @ rest) (recvWriter_zero, c0) \<and>
            (recv_bytes msgPrefix unmarshal pre (recvWriter_zero, c0) = (None, wp, cp) \<longrightarrow>
               recvWriter_Write msgPrefix unmarshal (a @ [nl]) (w, c) =
                 ((Suc (length a), None), recvWriter_zero, cp) \<and>
               recvWriter_Write msgPrefix unmarshal (a @ nl # rest) (w, c) =
                 (case recvWriter_Write msgPrefix unmarshal rest (recvWriter_zero, cp) of
                    ((n, Some e'), s') \<Rightarrow> ((0, Some e'), s')
                  | ((n, None), s') \<Rightarrow> ((Suc (length a) + n, None), s'))))"
proof -
  let ?rb = "recv_bytes msgPrefix unmarshal"
  have resume: "?rb (a @ t) (w, c) = ?rb (pre @ line @ t) (recvWriter_zero, c0)" for t
    using assms(4,5) by (rule recv_bytes_resume)
  have failed: "?rb (a @ t) (w, c) = (Some e', s')"
    if "?rb pre (recvWriter_zero, c0) = (Some e', s')" for t e' s'
    using that by (subst resume) (simp add: recv_bytes_append)
  have reached: "?rb (a @ t) (w, c) = ?rb (line @ t) (recvWriter_zero, cp')"
    if "?rb pre (recvWriter_zero, c0) = (None, wp', cp')" for t wp' cp'
  proof -
    from assms(3) that have "wp' = recvWriter_zero" by (rule recv_bytes_pre_line_start)
    with that show ?thesis by (subst resume) (simp add: recv_bytes_append)
  qed
  obtain r0 w0 c1 where pre: "?rb pre (recvWriter_zero, c0) = (r0, w0, c1)"
    by (cases "?rb pre (recvWriter_zero, c0)")
  show ?thesis
  proof (intro conjI impI)
    assume h: "take (length msgPrefix) line = msgPrefix \<and>
          unmarshal (drop (length msgPrefix) line) = Inl e"
    have err: "\<exists>e' s'. ?rb (a @ nl # rest) (w, c) = (Some e', s')"
    proof (cases r0)
      case (Some e')
      with pre failed [of e' "(w0, c1)" "nl # rest"] show ?thesis by blast
    next
      case None
      with pre reached [of w0 c1 "nl # rest"] h show ?thesis
        by (simp add: recv_bytes_marked_line [OF assms(1,2)])
    qed
    then show "fst (fst (recvWriter_Write msgPrefix unmarshal (a @ nl # rest) (w, c))) = 0"
      by (auto simp: recvWriter_Write_def)
    from err show "snd (fst (recvWriter_Write msgPrefix unmarshal (a @ nl # rest) (w, c))) \<noteq> None"
      by (auto simp: recvWriter_Write_def)
    assume "?rb pre (recvWriter_zero, c0) = (None, wp, cp)"
    from reached [OF this, of "nl # rest"] h
    show "fst (recvWriter_Write msgPrefix unmarshal (a @ nl # rest) (w, c)) = (0, Some e)"
      by (simp add: recvWriter_Write_def recv_bytes_marked_line [OF assms(1,2)])
  next
    assume h: "take (length msgPrefix) line = msgPrefix \<and>
          unmarshal (drop (length msgPrefix) line) = Inr m \<and>
          Type m \<noteq> typeReady \<and> Type m \<noteq> typeVars"
    have err: "\<exists>e' s'. ?rb (a @ nl # rest) (w, c) = (Some e', s')"
    proof (cases r0)
      case (Some e')
      with pre failed [of e' "(w0, c1)" "nl # rest"] show ?thesis by blast
    next
      case None
      with pre reached [of w0 c1 "nl # rest"] h show ?thesis
        by (simp add: recv_bytes_marked_line [OF assms(1,2)])
    qed
    then show "fst (fst (recvWriter_Write msgPrefix unmarshal (a @ nl # rest) (w, c))) = 0"
      by (auto simp: recvWriter_Write_def)
    from err show "snd (fst (recvWriter_Write msgPrefix unmarshal (a @ nl # rest) (w, c))) \<noteq> None"
      by (auto simp: recvWriter_Write_def)
    assume "?rb pre (recvWriter_zero, c0) = (None, wp, cp)"
    from reached [OF this, of "nl # rest"] h
    show "fst (recvWriter_Write msgPrefix unmarshal (a @ nl # rest) (w, c)) =
            (0, Some (errUnknownMessageType (Type m)))"
      by (simp add: recvWriter_Write_def recv_bytes_marked_line [OF assms(1,2)])
  next
    assume n: "take (length msgPrefix) line \<noteq> msgPrefix"
    note inert = recv_bytes_unmarked_line [OF assms(1,2) n]
    show "?rb (a @ nl # rest) (w, c) = ?rb (pre @ rest) (recvWriter_zero, c0)"
    proof (cases r0)
      case (Some e')
      with pre have l: "?rb (a @ nl # rest) (w, c) = (Some e', w0, c1)"
        using failed [of e' "(w0, c1)" "nl # rest"] by simp
      from Some pre have "?rb (pre @ rest) (recvWriter_zero, c0) = (Some e', w0, c1)"
        by (simp add: recv_bytes_append)
      with l show ?thesis by simp
    next
      case None
      from assms(3) pre None have z: "w0 = recvWriter_zero"
        using recv_bytes_pre_line_start [of pre msgPrefix unmarshal c0 w0 c1] by simp
      from None pre have "?rb (a @ nl # rest) (w, c) = ?rb (line @ nl # rest) (recvWriter_zero, c1)"
        using reached [of w0 c1 "nl # rest"] by simp
      then have l: "?rb (a @ nl # rest) (w, c) = ?rb rest (recvWriter_zero, c1)"
        by (simp only: inert)
      from None pre z have "?rb (pre @ rest) (recvWriter_zero, c0) = ?rb rest (recvWriter_zero, c1)"
        by (simp add: recv_bytes_append)
      with l show ?thesis by simp
    qed
    assume p: "?rb pre (recvWriter_zero, c0) = (None, wp, cp)"
    have all: "?rb (a @ nl # t) (w, c) = ?rb t (recvWriter_zero, cp)" for t
      using reached [OF p, of "nl # t"] by (simp only: inert)
    from all [of "[]"]
    show "recvWriter_Write msgPrefix unmarshal (a @ [nl]) (w, c) =
            ((Suc (length a), None), recvWriter_zero, cp)"
      by (simp add: recvWriter_Write_def)
    show "recvWriter_Write msgPrefix unmarshal (a @ nl # rest) (w, c) =
            (case recvWriter_Write msgPrefix unmarshal rest (recvWriter_zero, cp) of
               ((n, Some e'), s') \<Rightarrow> ((0, Some e'), s')
             | ((n, None), s') \<Rightarrow> ((Suc (length a) + n, None), s'))"
      by (simp add: recvWriter_Write_def all [of rest] split: prod.splits option.splits)
  qed
qed


lemma marker0_lines:
  "marker0 \<noteq> []" "nl \<notin> set ''#! {oops''" "nl \<notin> set ''#! {type:bogus}''" "nl \<notin> set ''hello''"
  by (simp_all add: marker0_def nl_def)

lemma split_marked_line:
  "recvWriter_Writes marker0 unmarshal0 [''#! {oo''] (recvWriter_zero, cmd0) =
     (None, \<lparr>buf = ''{oo'', readPrefix = True, skipLine = False\<rparr>, cmd0)"
  by (simp add: recvWriter_Write_def recv_byte_def marker0_def nl_def recvWriter_zero_def Let_def)

lemma split_unmarked_line:
  "recvWriter_Writes marker0 unmarshal0 [''he''] (recvWriter_zero, cmd0) =
     (None, \<lparr>buf = ''he'', readPrefix = False, skipLine = False\<rparr>, cmd0)"
  by (simp add: recvWriter_Write_def recv_byte_def marker0_def nl_def recvWriter_zero_def Let_def)

lemma ready_line:
  "recv_bytes marker0 unmarshal0 (''#! {type:ready}'' @ [nl]) (recvWriter_zero, cmd0) =
     (None, recvWriter_zero, do_action cmd0 SetReady)"
  by (simp add: recv_byte_def marker0_def unmarshal0_def typeReady_def nl_def
      recvWriter_zero_def reset_line_def Let_def)

theorem decoder_marked_and_inert_lines_witness:
  "recvWriter_Writes marker0 unmarshal0 [''#! {oo''] (recvWriter_zero, cmd0) =
     (None, \<lparr>buf = ''{oo'', readPrefix = True, skipLine = False\<rparr>, cmd0) \<and>
   fst (recvWriter_Write marker0 unmarshal0 (''ps'' @ [nl])
          (\<lparr>buf = ''{oo'', readPrefix = True, skipLine = False\<rparr>, cmd0)) =
     (0, Some (osError ''invalid character'')) \<and>
   fst (recvWriter_Write marker0 unmarshal0
          ((''#! {type:ready}'' @ [nl] @ ''#! {type:bogus}'') @ nl # ''more'')
          (recvWriter_zero, cmd0)) = (0, Some (errUnknownMessageType ''bogus'')) \<and>
   recvWriter_Writes marker0 unmarshal0 [''he''] (recvWriter_zero, cmd0) =
     (None, \<lparr>buf = ''he'', readPrefix = False, skipLine = False\<rparr>, cmd0) \<and>
   recvWriter_Write marker0 unmarshal0 (''llo'' @ [nl])
          (\<lparr>buf = ''he'', readPrefix = False, skipLine = False\<rparr>, cmd0) =
     ((4, None), recvWriter_zero, cmd0)"
proof -
  let ?bogus = "\<lparr>Type = ''bogus'', MVars = Map.empty\<rparr>"
  let ?e = "osError ''invalid character''"
  have none: "recvWriter_Writes marker0 unmarshal0 [] (recvWriter_zero, cmd0) =
      (None, recvWriter_zero, cmd0)" by simp
  have start: "recv_bytes marker0 unmarshal0 [] (recvWriter_zero, cmd0) =
      (None, recvWriter_zero, cmd0)" by simp
  have u1: "take (length marker0) ''#! {oops'' = marker0 \<and>
      unmarshal0 (drop (length marker0) ''#! {oops'') = Inl ?e"
    by (simp add: marker0_def unmarshal0_def)
  have u2: "take (length marker0) ''#! {type:bogus}'' = marker0 \<and>
      unmarshal0 (drop (length marker0) ''#! {type:bogus}'') = Inr ?bogus \<and>
      Type ?bogus \<noteq> typeReady \<and> Type ?bogus \<noteq> typeVars"
    by (simp add: marker0_def unmarshal0_def typeReady_def typeVars_def)
  have u3: "take (length marker0) ''hello'' \<noteq> marker0" by (simp add: marker0_def)
  have a: "fst (recvWriter_Write marker0 unmarshal0 (''ps'' @ [nl])
          (\<lparr>buf = ''{oo'', readPrefix = True, skipLine = False\<rparr>, cmd0)) = (0, Some ?e)"
    using u1 start
      decoder_marked_and_inert_lines
        [where msgPrefix = marker0 and line = "''#! {oops''" and pre = "[]"
           and unmarshal = unmarshal0 and chunks = "[''#! {oo'']" and ?c0.0 = cmd0
           and w = "\<lparr>buf = ''{oo'', readPrefix = True, skipLine = False\<rparr>" and c = cmd0
           and a = "''ps''" and e = ?e and rest = "[]" and wp = recvWriter_zero
           and cp = cmd0 and m = ?bogus,
         OF marker0_lines(1,2) _ split_marked_line, THEN conjunct1]
    by simp
  have b: "fst (recvWriter_Write marker0 unmarshal0
          ((''#! {type:ready}'' @ [nl] @ ''#! {type:bogus}'') @ nl # ''more'')
          (recvWriter_zero, cmd0)) = (0, Some (errUnknownMessageType ''bogus''))"
    using u2 ready_line
      decoder_marked_and_inert_lines
        [where msgPrefix = marker0 and line = "''#! {type:bogus}''"
           and pre = "''#! {type:ready}'' @ [nl]"
           and unmarshal = unmarshal0 and chunks = "[]" and ?c0.0 = cmd0
           and w = recvWriter_zero and c = cmd0
           and a = "''#! {type:ready}'' @ [nl] @ ''#! {type:bogus}''" and e = ?e
           and rest = "''more''" and wp = recvWriter_zero
           and cp = "do_action cmd0 SetReady" and m = ?bogus,
         OF marker0_lines(1,3) _ none, THEN conjunct2, THEN conjunct1]
    by simp
  have c: "recvWriter_Write marker0 unmarshal0 (''llo'' @ [nl])
          (\<lparr>buf = ''he'', readPrefix = False, skipLine = False\<rparr>, cmd0) =
     ((4, None), recvWriter_zero, cmd0)"
    using u3 start
      decoder_marked_and_inert_lines
        [where msgPrefix = marker0 and line = "''hello''" and pre = "[]"
           and unmarshal = unmarshal0 and chunks = "[''he'']" and ?c0.0 = cmd0
           and w = "\<lparr>buf = ''he'', readPrefix = False, skipLine = False\<rparr>" and c = cmd0
           and a = "''llo''" and e = ?e and rest = "[]" and wp = recvWriter_zero
           and cp = cmd0 and m = ?bogus,
         OF marker0_lines(1,4) _ split_unmarked_line, THEN conjunct2, THEN conjunct2]
    by simp
  from a b c split_marked_line split_unmarked_line show ?thesis by blast
qed

subsection \<open>Waiting for ready and for variables\<close>

lemma awaitReady_loop_now:
  "exited c \<or> recvReady c \<Longrightarrow> awaitReady_loop c wakes = Some c"
  by (cases wakes) auto

lemma awaitReady_loop_done:
  "awaitReady_loop c wakes = Some c' \<Longrightarrow> exited c' \<or> recvReady c'"
  by (induction wakes arbitrary: c) (auto split: if_splits)

lemma dom_wantKeys_gen:
  "dom (foldl (\<lambda>m key. m(key \<mapsto> True)) m keys) = dom m \<union> set keys"
  by (induction keys arbitrary: m) auto

lemma dom_wantKeys: "dom (wantKeys_of keys) = set keys"
  by (simp add: wantKeys_of_def dom_wantKeys_gen)

lemma len_wantKeys: "len (wantKeys_of keys) = card (set keys)"
  by (simp add: len_def dom_wantKeys)

lemma do_actions_dom: "dom (recvVars c) \<subseteq> dom (recvVars (foldl do_action c acts))"
proof (induction acts arbitrary: c)
  case Nil
  show ?case by simp
next
  case (Cons a acts)
  have "dom (recvVars c) \<subseteq> dom (recvVars (do_action c a))" by (rule do_action_dom)
  also have "\<dots> \<subseteq> dom (recvVars (foldl do_action (do_action c a) acts))" by (rule Cons.IH)
  finally show ?case by simp
qed

lemma updateRes_restrict:
  assumes "dom (recvVars c) \<subseteq> dom (recvVars c')"
  shows "updateRes want c' (recvVars c |` dom want) = recvVars c' |` dom want"
proof
  fix k
  show "updateRes want c' (recvVars c |` dom want) k = (recvVars c' |` dom want) k"
    using assms by (auto simp: updateRes_def map_add_def restrict_map_def split: option.splits)
qed

lemma updateRes_empty: "updateRes want c Map.empty = recvVars c |` dom want"
  by (simp add: updateRes_def)

lemma awaitVars_loop_now:
  "exited c \<or> \<not> len res < len want \<Longrightarrow> awaitVars_loop want c res wakes = Some (c, res)"
  by (cases wakes) auto

lemma awaitVars_loop_done:
  "awaitVars_loop want c (recvVars c |` dom want) wakes = Some (c', res') \<Longrightarrow>
   res' = recvVars c' |` dom want \<and> (exited c' \<or> \<not> len res' < len want) \<and>
   (\<exists>n. c' = foldl (foldl do_action) c (take n wakes))"
proof (induction wakes arbitrary: c)
  case Nil
  then show ?case by (auto split: if_splits)
next
  case (Cons acts wakes)
  show ?case
  proof (cases "\<not> exited c \<and> len (recvVars c |` dom want) < len want")
    case False
    with Cons.prems have "c' = c" "res' = recvVars c |` dom want" by auto
    with False show ?thesis by (auto intro: exI [of _ 0])
  next
    case True
    define c1 where "c1 = foldl do_action c acts"
    have u: "updateRes want c1 (recvVars c |` dom want) = recvVars c1 |` dom want"
      unfolding c1_def by (rule updateRes_restrict) (rule do_actions_dom)
    from True Cons.prems have "awaitVars_loop want c1 (recvVars c1 |` dom want) wakes = Some (c', res')"
      by (simp add: c1_def [symmetric] u)
    from Cons.IH [OF this] obtain n where
      r: "res' = recvVars c' |` dom want" "exited c' \<or> \<not> len res' < len want"
      and n: "c' = foldl (foldl do_action) c1 (take n wakes)" by blast
    from n have "c' = foldl (foldl do_action) c (take (Suc n) (acts # wakes))"
      by (simp add: c1_def)
    with r show ?thesis by blast
  qed
qed

lemma len_restrict_full:
  assumes "finite K" and "\<not> len (m |` K) < card K"
  shows "dom (m |` K) = K"
proof -
  have sub: "dom (m |` K) \<subseteq> K" by auto
  from assms(2) have "card K \<le> card (dom (m |` K))" by (simp add: len_def)
  with assms(1) sub show ?thesis by (rule card_seteq)
qed

lemma len_restrict_less:
  assumes "finite K"
  shows "len (m |` K) < card K \<longleftrightarrow> \<not> K \<subseteq> dom m"
proof
  assume l: "len (m |` K) < card K"
  show "\<not> K \<subseteq> dom m"
  proof
    assume "K \<subseteq> dom m"
    then have "dom (m |` K) = K" by auto
    with l show False by (simp add: len_def)
  qed
next
  assume n: "\<not> K \<subseteq> dom m"
  show "len (m |` K) < card K"
  proof (rule ccontr)
    assume "\<not> len (m |` K) < card K"
    with assms have "dom (m |` K) = K" by (rule len_restrict_full)
    then have "K \<subseteq> dom m" by auto
    with n show False by simp
  qed
qed

text \<open>
  C9: when awaitVars returns a mapping, its keys are exactly the requested keys, each
  mapped to the value the shared variables hold for it when awaitVars returns (the
  state reached after some of the wake-ups), and it holds nothing else: it is the
  restriction of the shared variables to the requested keys.
\<close>

theorem awaitVars_result_keys:
  assumes "awaitVars c keys wakes = Some (Inr res, c')"
  shows "dom res = set keys \<and> (\<forall>k \<in> set keys. res k = recvVars c' k) \<and>
         res = recvVars c' |` set keys \<and>
         (\<exists>n. c' = foldl (foldl do_action) c (take n wakes))"
proof -
  let ?want = "wantKeys_of keys"
  from assms have sc: "started c" "\<not> calledWait c"
    by (auto simp: awaitVars_def split: if_splits)
  with assms have "awaitVars_loop ?want c (recvVars c |` dom ?want) wakes = Some (c', res)"
    and full: "\<not> len res < len ?want"
    by (auto simp: awaitVars_def Let_def updateRes_empty split: option.splits if_splits)
  from awaitVars_loop_done [OF this(1)] obtain n where
    r: "res = recvVars c' |` set keys" and n: "c' = foldl (foldl do_action) c (take n wakes)"
    by (auto simp: dom_wantKeys)
  from full r have d: "dom res = set keys"
    using len_restrict_full [of "set keys" "recvVars c'"] by (simp add: len_wantKeys)
  from r have "\<forall>k \<in> set keys. res k = recvVars c' k" by simp
  with d r n show ?thesis by blast
qed

text \<open>
  C1 (as amended): on a started handle on which wait was not called, ready wins the
  race. When the ready flag and the exited flag are both set when awaitReady evaluates
  its condition, whether they were set before the call or during the wait, awaitReady
  returns no error; it returns errProcessExited only when it returns with the ready
  flag unset, and then the process has exited. Likewise awaitVars returns the requested
  variables whenever all requested keys are present when it returns, also when the
  process has exited, and returns errProcessExited only when a requested key is missing
  and the process has exited.
\<close>

theorem await_ready_wins:
  assumes "started c" and "\<not> calledWait c"
  shows "(exited c \<and> recvReady c \<longrightarrow> awaitReady c wakes = Some (None, c)) \<and>
         (\<not> exited c \<and> \<not> recvReady c \<longrightarrow>
            awaitReady c ([SetReady, SetExited] # wakes) =
              Some (None, c\<lparr>recvReady := True, exited := True\<rparr>)) \<and>
         (awaitReady c wakes = Some (r, c') \<longrightarrow>
            (if recvReady c' then r = None
             else r = Some errProcessExited \<and> exited c')) \<and>
         (exited c \<and> set keys \<subseteq> dom (recvVars c) \<longrightarrow>
            awaitVars c keys wakes = Some (Inr (recvVars c |` set keys), c)) \<and>
         (awaitVars c keys wakes = Some (rv, c') \<longrightarrow>
            (if set keys \<subseteq> dom (recvVars c') then rv = Inr (recvVars c' |` set keys)
             else rv = Inl errProcessExited \<and> exited c'))"
proof (intro conjI impI)
  assume "exited c \<and> recvReady c"
  with assms show "awaitReady c wakes = Some (None, c)"
    by (simp add: awaitReady_def awaitReady_loop_now)
next
  assume "\<not> exited c \<and> \<not> recvReady c"
  with assms show "awaitReady c ([SetReady, SetExited] # wakes) =
              Some (None, c\<lparr>recvReady := True, exited := True\<rparr>)"
    by (simp add: awaitReady_def awaitReady_loop_now)
next
  assume a: "awaitReady c wakes = Some (r, c')"
  with assms obtain c1 where l: "awaitReady_loop c wakes = Some c1"
    by (auto simp: awaitReady_def split: option.splits)
  from awaitReady_loop_done [OF l] a assms l
  show "if recvReady c' then r = None else r = Some errProcessExited \<and> exited c'"
    by (auto simp: awaitReady_def split: if_splits)
next
  assume e: "exited c \<and> set keys \<subseteq> dom (recvVars c)"
  then have "\<not> len (recvVars c |` set keys) < card (set keys)"
    using len_restrict_less [of "set keys" "recvVars c"] by simp
  with assms e show "awaitVars c keys wakes = Some (Inr (recvVars c |` set keys), c)"
    by (simp add: awaitVars_def Let_def updateRes_empty dom_wantKeys len_wantKeys awaitVars_loop_now)
next
  let ?want = "wantKeys_of keys"
  assume a: "awaitVars c keys wakes = Some (rv, c')"
  with assms obtain res where l: "awaitVars_loop ?want c (recvVars c |` dom ?want) wakes = Some (c', res)"
    and rv: "rv = (if len res < len ?want then Inl errProcessExited else Inr res)"
    by (auto simp: awaitVars_def Let_def updateRes_empty split: option.splits if_splits)
  from awaitVars_loop_done [OF l] have r: "res = recvVars c' |` set keys"
    and e: "exited c' \<or> \<not> len res < len ?want" by (auto simp: dom_wantKeys)
  from r have "len res < len ?want \<longleftrightarrow> \<not> set keys \<subseteq> dom (recvVars c')"
    using len_restrict_less [of "set keys" "recvVars c'"] by (simp add: len_wantKeys)
  with rv r e show "if set keys \<subseteq> dom (recvVars c') then rv = Inr (recvVars c' |` set keys)
             else rv = Inl errProcessExited \<and> exited c'" by auto
qed


theorem awaitVars_result_keys_witness:
  "awaitVars cmd_run [''a''] [[MergeVars [''a'' \<mapsto> ''1'', ''z'' \<mapsto> ''9'']]] =
     Some (Inr [''a'' \<mapsto> ''1''],
           do_action cmd_run (MergeVars [''a'' \<mapsto> ''1'', ''z'' \<mapsto> ''9''])) \<and>
   recvVars (do_action cmd_run (MergeVars [''a'' \<mapsto> ''1'', ''z'' \<mapsto> ''9''])) ''z'' = Some ''9'' \<and>
   dom [''a'' \<mapsto> ''1''] = set [''a'']"
proof -
  let ?c' = "do_action cmd_run (MergeVars [''a'' \<mapsto> ''1'', ''z'' \<mapsto> ''9''])"
  have h: "awaitVars cmd_run [''a''] [[MergeVars [''a'' \<mapsto> ''1'', ''z'' \<mapsto> ''9'']]] =
     Some (Inr [''a'' \<mapsto> ''1''], ?c')"
    using cmd_run_flags
    by (simp add: awaitVars_def Let_def updateRes_def len_def dom_wantKeys mergeMaps_def)
  have z: "recvVars ?c' ''z'' = Some ''9''" by (simp add: mergeMaps_def)
  from awaitVars_result_keys [OF h] have "dom [''a'' \<mapsto> ''1''] = set [''a'']" by blast
  with h z show ?thesis by blast
qed

theorem await_ready_wins_witness:
  "started cmd_race \<and> \<not> calledWait cmd_race \<and> exited cmd_race \<and> recvReady cmd_race \<and>
   awaitReady cmd_race [] = Some (None, cmd_race) \<and>
   awaitReady cmd_run [[SetReady, SetExited]] =
     Some (None, cmd_run\<lparr>recvReady := True, exited := True\<rparr>) \<and>
   awaitReady cmd_run [[SetExited]] = Some (Some errProcessExited, do_action cmd_run SetExited) \<and>
   awaitVars cmd_race [''a''] [] = Some (Inr (recvVars cmd_race |` set [''a'']), cmd_race) \<and>
   awaitVars cmd_race [''b''] [] = Some (Inl errProcessExited, cmd_race)"
proof -
  have f: "started cmd_race" "\<not> calledWait cmd_race" "exited cmd_race" "recvReady cmd_race"
    "recvVars cmd_race = [''a'' \<mapsto> ''1'']"
    using cmd_run_flags by (simp_all add: cmd_race_def mergeMaps_def)
  have g: "started cmd_run" "\<not> calledWait cmd_run" "\<not> exited cmd_run" "\<not> recvReady cmd_run"
    using cmd_run_flags by simp_all
  have x: "awaitReady cmd_run [[SetExited]] =
      Some (Some errProcessExited, do_action cmd_run SetExited)"
    using g by (simp add: awaitReady_def)
  have y: "awaitVars cmd_race [''b''] [] = Some (Inl errProcessExited, cmd_race)"
    using f by (simp add: awaitVars_def Let_def updateRes_def len_def dom_wantKeys)
  note race = await_ready_wins [OF f(1,2), of "[]" None cmd_race "[''a'']" "Inl errProcessExited"]
  note run = await_ready_wins [OF g(1,2), of "[]" None cmd_run "[''a'']" "Inl errProcessExited"]
  have a: "awaitReady cmd_race [] = Some (None, cmd_race)"
    using f(3,4) race [THEN conjunct1] by blast
  have b: "awaitReady cmd_run [[SetReady, SetExited]] =
     Some (None, cmd_run\<lparr>recvReady := True, exited := True\<rparr>)"
    using g(3,4) run [THEN conjunct2, THEN conjunct1] by blast
  have "set [''a''] \<subseteq> dom (recvVars cmd_race)" by (simp add: f(5))
  then have c: "awaitVars cmd_race [''a''] [] =
      Some (Inr (recvVars cmd_race |` set [''a'']), cmd_race)"
    using f(3) race [THEN conjunct2, THEN conjunct2, THEN conjunct2, THEN conjunct1] by blast
  from f(1-4) a b c x y show ?thesis by blast
qed

theorem await_exit_wins_counterexample:
  "started cmd_race \<and> \<not> calledWait cmd_race \<and> exited cmd_race \<and> recvReady cmd_race \<and>
   recvVars cmd_race ''a'' = Some ''1'' \<and>
   awaitReady cmd_race [] = Some (None, cmd_race) \<and>
   awaitVars cmd_race [''a''] [] = Some (Inr [''a'' \<mapsto> ''1''], cmd_race)"
  using cmd_run_flags
  by (simp add: cmd_race_def awaitReady_def awaitVars_def Let_def updateRes_def len_def
      dom_wantKeys mergeMaps_def)

end
